theory Spec2Isabelle
  imports Main "HOL-Library.Sublist"
begin

section \<open>The browser environment shared by the page components\<close>

text \<open>
  JavaScript strings are modelled as \<open>string\<close>; a character stands for one code unit.
  \<open>null\<close> and \<open>undefined\<close> are \<open>None\<close>. Numbers that the pages only compare are \<open>int\<close>.
  The text that the events page searches, an event's address and the search string, may hold
  any letter, so it is kept as the list of its UTF-16 code units; \<open>units\<close> gives the code
  units of a string of Latin-1 characters.
\<close>

type_synonym code_units = "nat list"

definition units :: "string \<Rightarrow> code_units" where
  "units s = map of_char s"

subsection \<open>Client storage\<close>

text \<open>
  \<open>localStorage\<close> with an access log, so that a read leaves a mark too. The pages under
  verification call \<open>localStorage.getItem\<close> only; the log can still tell a write from a read.
\<close>

datatype StorageOp = GetItem string | SetItem string string | RemoveItem string

record ClientStorage =
  items :: "string \<rightharpoonup> string"
  oplog :: "StorageOp list"

definition getItem :: "string \<Rightarrow> ClientStorage \<Rightarrow> string option \<times> ClientStorage" where
  "getItem k st = (items st k, st\<lparr>oplog := oplog st @ [GetItem k]\<rparr>)"

text \<open>JavaScript truthiness of \<open>string | null\<close>: \<open>null\<close> and the empty string are falsy.\<close>

fun truthy :: "string option \<Rightarrow> bool" where
  "truthy None = False"
| "truthy (Some s) = (s \<noteq> [])"

text \<open>\<open>a || b\<close> on strings.\<close>

definition or_else :: "string option \<Rightarrow> string \<Rightarrow> string" where
  "or_else a b = (case a of None \<Rightarrow> b | Some s \<Rightarrow> if s = [] then b else s)"

subsection \<open>Toast\<close>

datatype ToastType = ToastSuccess | ToastError

record Toast =
  message :: string
  toast_type :: ToastType
  toast_show :: bool

definition no_toast :: Toast where
  "no_toast = \<lparr>message = [], toast_type = ToastSuccess, toast_show = False\<rparr>"

definition error_toast :: "string \<Rightarrow> Toast" where
  "error_toast m = \<lparr>message = m, toast_type = ToastError, toast_show = True\<rparr>"

definition success_toast :: "string \<Rightarrow> Toast" where
  "success_toast m = \<lparr>message = m, toast_type = ToastSuccess, toast_show = True\<rparr>"

subsection \<open>Data transfer objects\<close>

text \<open>
  The \<open>Event\<close> and \<open>Booking\<close> interfaces of the pages differ only in which fields of the
  backend's JSON they declare; one record each carries the union.
\<close>

record Event =
  ev_id :: string
  name :: string
  event_date :: string
  event_time :: string
  address :: code_units
  total_slots :: int
  available_slots :: int
  status :: string
  additional_info :: string

record TimeSlot =
  slot_start :: string
  slot_end :: string
  slots :: int
  available :: int

record Booking =
  bk_id :: string
  booking_reference :: string
  booking_status :: string
  booked_at :: string
  cancelled_at :: "string option"
  time_slot_start :: "string option"
  time_slot_end :: "string option"
  bk_event :: Event

record SlotsData =
  has_time_slots :: bool
  slots_field :: "TimeSlot list option"

record BookingBody =
  body_event_id :: string
  body_time_slot_start :: "string option"
  body_time_slot_end :: "string option"

record ResultDetail =
  result_category :: string
  result_notes :: "string option"
  result_file_url :: "string option"
  rd_event_name :: string
  rd_event_date :: string

record ParticipantResult =
  pr_id :: string
  pr_event_name :: string
  pr_event_date :: string
  pr_result_category :: string
  result_available :: bool
  uploaded_at :: string

record DashboardStats =
  active_events :: int
  total_participants :: int
  tests_completed :: int
  bookings_this_month :: int

record Activity =
  act_type :: string
  act_message :: string
  timestamp :: string
  entity_id :: string

record BookingTrend =
  week :: string
  trend_count :: int
  week_start :: string
  week_end :: string

subsection \<open>Network\<close>

text \<open>
  A request is named by its endpoint and carries what the page puts into it: the path
  parameter, the bearer token as read from storage (\<open>None\<close> is sent as \<open>Bearer null\<close>) and
  the JSON body.
\<close>

datatype Request =
    GetEvent string
  | GetTimeSlots string
  | GetParticipantBookings "string option"
  | PostBooking "string option" BookingBody
  | GetEvents bool "string option"
  | PostCancelBooking string "string option"
  | GetParticipantResults "string option"
  | PostRequestOtp string "string option"
  | PostViewResult string "string option" string
  | GetAdminEvents "string option"
  | DeleteEvent string "string option"
  | GetAdminStats "string option"
  | GetAdminActivity "string option"
  | GetAdminTrends "string option"

datatype NetEvent = Sent Request | Received Request

text \<open>
  What an awaited \<open>fetch\<close> followed by \<open>res.json()\<close> can give a handler:
  \<open>Rejected m\<close>: the fetch or the parsing threw an error with message \<open>m\<close>;
  \<open>NotOk d\<close>: \<open>res.ok\<close> is false and the error body has \<open>detail\<close> \<open>d\<close>;
  \<open>Ok x\<close>: \<open>res.ok\<close> is true and the body parses to \<open>x\<close>.
\<close>

datatype 'a Response = Rejected string | NotOk "string option" | Ok 'a

text \<open>The request a reply belongs to is looked up by its endpoint.\<close>

definition is_bookings_request :: "Request \<Rightarrow> bool" where
  "is_bookings_request q = (case q of GetParticipantBookings _ \<Rightarrow> True | _ \<Rightarrow> False)"

definition is_booking_post :: "Request \<Rightarrow> bool" where
  "is_booking_post q = (case q of PostBooking _ _ \<Rightarrow> True | _ \<Rightarrow> False)"

definition is_otp_request :: "Request \<Rightarrow> bool" where
  "is_otp_request q = (case q of PostRequestOtp _ _ \<Rightarrow> True | _ \<Rightarrow> False)"

definition is_view_request :: "Request \<Rightarrow> bool" where
  "is_view_request q = (case q of PostViewResult _ _ _ \<Rightarrow> True | _ \<Rightarrow> False)"

definition is_stats_request :: "Request \<Rightarrow> bool" where
  "is_stats_request q = (case q of GetAdminStats _ \<Rightarrow> True | _ \<Rightarrow> False)"

definition is_activity_request :: "Request \<Rightarrow> bool" where
  "is_activity_request q = (case q of GetAdminActivity _ \<Rightarrow> True | _ \<Rightarrow> False)"

definition is_trends_request :: "Request \<Rightarrow> bool" where
  "is_trends_request q = (case q of GetAdminTrends _ \<Rightarrow> True | _ \<Rightarrow> False)"

text \<open>
  A page with its environment: the component state \<open>ui\<close>, the client storage, the requests
  awaiting their response and the history of network events.
\<close>

record 'ui World =
  ui :: 'ui
  storage :: ClientStorage
  in_flight :: "Request list"
  trace :: "NetEvent list"

definition modify :: "('ui \<Rightarrow> 'ui) \<Rightarrow> 'ui World \<Rightarrow> 'ui World" where
  "modify f w = w\<lparr>ui := f (ui w)\<rparr>"

definition send :: "Request \<Rightarrow> 'ui World \<Rightarrow> 'ui World" where
  "send r w = w\<lparr>in_flight := in_flight w @ [r], trace := trace w @ [Sent r]\<rparr>"

definition receive :: "Request \<Rightarrow> 'ui World \<Rightarrow> 'ui World" where
  "receive r w = w\<lparr>in_flight := remove1 r (in_flight w), trace := trace w @ [Received r]\<rparr>"

definition read_token :: "'ui World \<Rightarrow> string option \<times> 'ui World" where
  "read_token w = (case getItem ''access_token'' (storage w) of (t, st) \<Rightarrow> (t, w\<lparr>storage := st\<rparr>))"

definition fresh_world :: "'ui \<Rightarrow> ClientStorage \<Rightarrow> 'ui World" where
  "fresh_world s st = \<lparr>ui = s, storage = st, in_flight = [], trace = []\<rparr>"

section \<open>Event booking page (events/[id]/page.tsx)\<close>

datatype BookingStep = StepDetails | StepEligibility | StepTimeSlot | StepConfirmation | StepSuccess

record EligibilityAnswers =
  age :: "bool option"
  menstruating :: "bool option"
  hysterectomy :: "bool option"
  hpv_test :: "bool option"

record BookingPage =
  event :: "Event option"
  timeSlots :: "TimeSlot list"
  hasTimeSlots :: bool
  currentStep :: BookingStep
  loading :: bool
  bookingLoading :: bool
  isBooked :: bool
  bookingReference :: string
  acceptedTerms :: bool
  userRole :: "string option"
  selectedTimeSlot :: "TimeSlot option"
  eligibility :: EligibilityAnswers
  toast :: Toast

definition initial_booking_page :: BookingPage where
  "initial_booking_page =
     \<lparr>event = None, timeSlots = [], hasTimeSlots = False, currentStep = StepDetails,
      loading = True, bookingLoading = False, isBooked = False, bookingReference = [],
      acceptedTerms = False, userRole = None, selectedTimeSlot = None,
      eligibility = \<lparr>age = None, menstruating = None, hysterectomy = None, hpv_test = None\<rparr>,
      toast = no_toast\<rparr>"

definition canProceedFromEligibility :: "EligibilityAnswers \<Rightarrow> bool" where
  "canProceedFromEligibility e \<longleftrightarrow>
     age e \<noteq> None \<and> menstruating e \<noteq> None \<and> hysterectomy e \<noteq> None \<and> hpv_test e \<noteq> None"

definition isEligible :: "EligibilityAnswers \<Rightarrow> bool" where
  "isEligible e \<longleftrightarrow>
     age e = Some True \<and> menstruating e = Some False \<and> hysterectomy e = Some False
     \<and> hpv_test e = Some False"

text \<open>The amber note of the eligibility step (line 564).\<close>

definition eligibility_warning_shown :: "EligibilityAnswers \<Rightarrow> bool" where
  "eligibility_warning_shown e \<longleftrightarrow> canProceedFromEligibility e \<and> \<not> isEligible e"

text \<open>The wizard's card is rendered once loading is over and an event is there (lines 226-254).\<close>

definition card_rendered :: "BookingPage \<Rightarrow> bool" where
  "card_rendered s \<longleftrightarrow> \<not> loading s \<and> event s \<noteq> None"

definition event_has_free_slots :: "BookingPage \<Rightarrow> bool" where
  "event_has_free_slots s = (case event s of None \<Rightarrow> False | Some e \<Rightarrow> available_slots e > 0)"

definition isFull :: "TimeSlot \<Rightarrow> bool" where
  "isFull slot \<longleftrightarrow> available slot \<le> 0"

text \<open>What the user can do on the page. Each click reaches its handler only when the
  element is rendered and not disabled.\<close>

datatype WizardAction =
    ClickContinueToEligibility
  | ClickBack
  | AnswerAge bool
  | AnswerMenstruating bool
  | AnswerHysterectomy bool
  | AnswerHpvTest bool
  | ClickContinue
  | ClickSlot nat
  | CheckTerms bool
  | ClickConfirmBooking
  | CloseToast

text \<open>\<open>handleBooking\<close> up to its \<open>await fetch\<close> (lines 141-169).\<close>

definition booking_body :: "string \<Rightarrow> BookingPage \<Rightarrow> BookingBody" where
  "booking_body eventId s =
     (let requestBody = \<lparr>body_event_id = eventId, body_time_slot_start = None,
                         body_time_slot_end = None\<rparr>
      in case selectedTimeSlot s of
           None \<Rightarrow> requestBody
         | Some slot \<Rightarrow>
             if hasTimeSlots s
             then requestBody\<lparr>body_time_slot_start := Some (slot_start slot),
                              body_time_slot_end := Some (slot_end slot)\<rparr>
             else requestBody)"

definition handleBooking :: "string \<Rightarrow> BookingPage World \<Rightarrow> BookingPage World" where
  "handleBooking eventId w0 =
     (let w1 = modify (\<lambda>s. s\<lparr>bookingLoading := True\<rparr>) w0
      in case read_token w1 of (token, w2) \<Rightarrow>
        if \<not> truthy token
        then modify (\<lambda>s. s\<lparr>toast := error_toast ''You must be logged in to book'',
                             bookingLoading := False\<rparr>) w2
        else send (PostBooking token (booking_body eventId (ui w2))) w2)"

text \<open>\<open>handleBooking\<close> from the response on (lines 171-194).\<close>

definition handleBooking_resume :: "string Response \<Rightarrow> BookingPage \<Rightarrow> BookingPage" where
  "handleBooking_resume r s =
     (case r of
        Ok reference \<Rightarrow>
          s\<lparr>bookingReference := reference, isBooked := True, currentStep := StepSuccess,
            toast := success_toast ''Booking confirmed successfully!'',
            bookingLoading := False\<rparr>
      | NotOk detail \<Rightarrow>
          s\<lparr>toast := error_toast (or_else (Some (or_else detail ''Failed to book event''))
                                          ''Booking failed''),
            bookingLoading := False\<rparr>
      | Rejected m \<Rightarrow>
          s\<lparr>toast := error_toast (or_else (Some m) ''Booking failed''),
            bookingLoading := False\<rparr>)"

text \<open>The click handlers of the card (lines 412-723), guarded by what is rendered.\<close>

definition set_answer ::
  "(EligibilityAnswers \<Rightarrow> EligibilityAnswers) \<Rightarrow> BookingPage \<Rightarrow> BookingPage" where
  "set_answer f s =
     (if card_rendered s \<and> currentStep s = StepEligibility
      then s\<lparr>eligibility := f (eligibility s)\<rparr> else s)"

fun click :: "WizardAction \<Rightarrow> BookingPage \<Rightarrow> BookingPage" where
  "click ClickContinueToEligibility s =
     (if card_rendered s \<and> currentStep s = StepDetails \<and> userRole s = Some ''participant''
         \<and> \<not> isBooked s \<and> event_has_free_slots s
      then s\<lparr>currentStep := StepEligibility\<rparr> else s)"
| "click ClickBack s =
     (if \<not> card_rendered s then s
      else case currentStep s of
        StepEligibility \<Rightarrow> s\<lparr>currentStep := StepDetails\<rparr>
      | StepTimeSlot \<Rightarrow> if hasTimeSlots s then s\<lparr>currentStep := StepEligibility\<rparr> else s
      | StepConfirmation \<Rightarrow>
          s\<lparr>currentStep := (if hasTimeSlots s then StepTimeSlot else StepEligibility)\<rparr>
      | _ \<Rightarrow> s)"
| "click (AnswerAge b) s = set_answer (\<lambda>e. e\<lparr>age := Some b\<rparr>) s"
| "click (AnswerMenstruating b) s = set_answer (\<lambda>e. e\<lparr>menstruating := Some b\<rparr>) s"
| "click (AnswerHysterectomy b) s = set_answer (\<lambda>e. e\<lparr>hysterectomy := Some b\<rparr>) s"
| "click (AnswerHpvTest b) s = set_answer (\<lambda>e. e\<lparr>hpv_test := Some b\<rparr>) s"
| "click ClickContinue s =
     (if \<not> card_rendered s then s
      else case currentStep s of
        StepEligibility \<Rightarrow>
          if canProceedFromEligibility (eligibility s)
          then s\<lparr>currentStep := (if hasTimeSlots s then StepTimeSlot else StepConfirmation)\<rparr>
          else s
      | StepTimeSlot \<Rightarrow>
          if hasTimeSlots s \<and> selectedTimeSlot s \<noteq> None
          then s\<lparr>currentStep := StepConfirmation\<rparr> else s
      | _ \<Rightarrow> s)"
| "click (ClickSlot i) s =
     (if card_rendered s \<and> currentStep s = StepTimeSlot \<and> hasTimeSlots s
         \<and> i < length (timeSlots s) \<and> \<not> isFull (timeSlots s ! i)
      then s\<lparr>selectedTimeSlot := Some (timeSlots s ! i)\<rparr> else s)"
| "click (CheckTerms b) s =
     (if card_rendered s \<and> currentStep s = StepConfirmation
      then s\<lparr>acceptedTerms := b\<rparr> else s)"
| "click ClickConfirmBooking s = s"
| "click CloseToast s =
     (if card_rendered s then s\<lparr>toast := (toast s)\<lparr>toast_show := False\<rparr>\<rparr> else s)"

text \<open>The Confirm button (lines 705-708) is the one click that reaches the environment.\<close>

definition confirm_enabled :: "BookingPage \<Rightarrow> bool" where
  "confirm_enabled s \<longleftrightarrow>
     card_rendered s \<and> currentStep s = StepConfirmation
     \<and> \<not> (\<not> acceptedTerms s \<or> bookingLoading s)"

text \<open>
  The mount effect (lines 82-97). \<open>decodeRole\<close> stands for
  \<open>JSON.parse(atob(token.split('.')[1])).role\<close>: \<open>None\<close> when it throws, otherwise the
  payload's role.
\<close>

definition fetchEventAndTimeSlots :: "string \<Rightarrow> BookingPage World \<Rightarrow> BookingPage World" where
  "fetchEventAndTimeSlots eventId w =
     send (GetEvent eventId) (modify (\<lambda>s. s\<lparr>loading := True\<rparr>) w)"

definition checkIfBooked :: "string option \<Rightarrow> BookingPage World \<Rightarrow> BookingPage World" where
  "checkIfBooked token w = send (GetParticipantBookings token) w"

definition booking_mount ::
  "string \<Rightarrow> (string \<Rightarrow> string option option) \<Rightarrow> BookingPage World \<Rightarrow> BookingPage World" where
  "booking_mount eventId decodeRole w0 =
     (let w1 = fetchEventAndTimeSlots eventId w0
      in case read_token w1 of (token, w2) \<Rightarrow>
        (case token of
           None \<Rightarrow> w2
         | Some t \<Rightarrow>
             if t = [] then w2
             else (case decodeRole t of
                     None \<Rightarrow> w2
                   | Some role \<Rightarrow>
                       let w3 = modify (\<lambda>s. s\<lparr>userRole := role\<rparr>) w2
                       in if role = Some ''participant'' then checkIfBooked token w3 else w3)))"

text \<open>
  The replies the page waits for. \<open>fetchEventAndTimeSlots\<close> does not look at \<open>res.ok\<close>:
  whatever parses is taken as the event or the slots, so there \<open>None\<close> is the throwing
  fetch or parse and \<open>Some\<close> the parsed body.
\<close>

datatype BookingPageReply =
    EventReply "Event option"
  | SlotsReply "SlotsData option"
  | BookingsReply "Booking list Response"
  | BookingPostReply "string Response"

definition load_failed :: "BookingPage \<Rightarrow> BookingPage" where
  "load_failed s = s\<lparr>toast := error_toast ''Failed to load event'', loading := False\<rparr>"

fun deliver :: "string \<Rightarrow> BookingPageReply \<Rightarrow> BookingPage World \<Rightarrow> BookingPage World" where
  "deliver eventId (EventReply r) w =
     (if GetEvent eventId \<notin> set (in_flight w) then w
      else let w1 = receive (GetEvent eventId) w
           in case r of
                None \<Rightarrow> modify load_failed w1
              | Some eventData \<Rightarrow>
                  send (GetTimeSlots eventId) (modify (\<lambda>s. s\<lparr>event := Some eventData\<rparr>) w1))"
| "deliver eventId (SlotsReply r) w =
     (if GetTimeSlots eventId \<notin> set (in_flight w) then w
      else let w1 = receive (GetTimeSlots eventId) w
           in case r of
                None \<Rightarrow> modify load_failed w1
              | Some slotsData \<Rightarrow>
                  modify (\<lambda>s. s\<lparr>hasTimeSlots := has_time_slots slotsData,
                                 timeSlots := (case slots_field slotsData of
                                                 None \<Rightarrow> [] | Some l \<Rightarrow> l),
                                 loading := False\<rparr>) w1)"
| "deliver eventId (BookingsReply r) w =
     (case find is_bookings_request (in_flight w) of
        None \<Rightarrow> w
      | Some q \<Rightarrow>
          let w1 = receive q w
          in (case r of
                Ok bookings \<Rightarrow>
                  modify (\<lambda>s. s\<lparr>isBooked :=
                                   list_ex (\<lambda>b. ev_id (bk_event b) = eventId) bookings\<rparr>) w1
              | _ \<Rightarrow> w1))"
| "deliver eventId (BookingPostReply r) w =
     (case find is_booking_post (in_flight w) of
        None \<Rightarrow> w
      | Some q \<Rightarrow> modify (handleBooking_resume r) (receive q w))"

datatype BookingPageAction = User WizardAction | Reply BookingPageReply

fun booking_step :: "string \<Rightarrow> BookingPageAction \<Rightarrow> BookingPage World \<Rightarrow> BookingPage World" where
  "booking_step eventId (User a) w =
     (if a = ClickConfirmBooking
      then (if confirm_enabled (ui w) then handleBooking eventId w else w)
      else modify (click a) w)"
| "booking_step eventId (Reply r) w = deliver eventId r w"

definition booking_run ::
  "string \<Rightarrow> (string \<Rightarrow> string option option) \<Rightarrow> ClientStorage \<Rightarrow> BookingPageAction list
   \<Rightarrow> BookingPage World" where
  "booking_run eventId decodeRole st acts =
     foldl (\<lambda>w a. booking_step eventId a w)
       (booking_mount eventId decodeRole (fresh_world initial_booking_page st)) acts"





section \<open>Result page (results/[id]/page.tsx)\<close>

datatype ResultStep = RequestOtp | ViewResult

record ResultPage =
  step :: ResultStep
  otp :: string
  result :: "ResultDetail option"
  loading :: bool
  phoneNumber :: string
  toast :: Toast

definition initial_result_page :: ResultPage where
  "initial_result_page =
     \<lparr>step = RequestOtp, otp = [], result = None, loading = False, phoneNumber = [],
      toast = no_toast\<rparr>"

text \<open>What the page shows (lines 154-339): the result card carries \<open>result_category\<close>,
  \<open>result_notes\<close> and \<open>result_file_url\<close>; the two other views carry no result data.\<close>

datatype ResultView = SendCodeCard | EnterCodeForm | ResultCard ResultDetail

definition result_view :: "ResultPage \<Rightarrow> ResultView" where
  "result_view s =
     (case result s of
        None \<Rightarrow> if step s = RequestOtp then SendCodeCard else EnterCodeForm
      | Some r \<Rightarrow> ResultCard r)"

text \<open>\<open>value.replace(/\D/g, '')\<close>: \<open>\D\<close> is every code unit outside \<open>0-9\<close>.\<close>

definition is_digit :: "char \<Rightarrow> bool" where
  "is_digit c \<longleftrightarrow> c \<in> set ''0123456789''"

definition strip_non_digits :: "string \<Rightarrow> string" where
  "strip_non_digits v = filter is_digit v"

definition maxLength :: nat where
  "maxLength = 6"

definition handleRequestOTP :: "string \<Rightarrow> ResultPage World \<Rightarrow> ResultPage World" where
  "handleRequestOTP resultId w0 =
     (let w1 = modify (\<lambda>s. s\<lparr>loading := True\<rparr>) w0
      in case read_token w1 of (token, w2) \<Rightarrow> send (PostRequestOtp resultId token) w2)"

definition handleRequestOTP_resume :: "string Response \<Rightarrow> ResultPage \<Rightarrow> ResultPage" where
  "handleRequestOTP_resume r s =
     (case r of
        Ok phone_number \<Rightarrow>
          s\<lparr>phoneNumber := phone_number, step := ViewResult,
            toast := success_toast ''Verification code sent to your phone'', loading := False\<rparr>
      | NotOk detail \<Rightarrow>
          s\<lparr>toast := error_toast (or_else (Some (or_else detail ''Failed to send OTP''))
                                          ''Failed to send OTP''),
            loading := False\<rparr>
      | Rejected m \<Rightarrow>
          s\<lparr>toast := error_toast (or_else (Some m) ''Failed to send OTP''), loading := False\<rparr>)"

definition handleVerifyOTP :: "string \<Rightarrow> ResultPage World \<Rightarrow> ResultPage World" where
  "handleVerifyOTP resultId w0 =
     (let w1 = modify (\<lambda>s. s\<lparr>loading := True\<rparr>) w0
      in case read_token w1 of (token, w2) \<Rightarrow>
           send (PostViewResult resultId token (otp (ui w2))) w2)"

definition handleVerifyOTP_resume :: "ResultDetail Response \<Rightarrow> ResultPage \<Rightarrow> ResultPage" where
  "handleVerifyOTP_resume r s =
     (case r of
        Ok data \<Rightarrow>
          s\<lparr>result := Some data, toast := success_toast ''Result verified successfully'',
            loading := False\<rparr>
      | NotOk detail \<Rightarrow>
          s\<lparr>toast := error_toast (or_else (Some (or_else detail ''Invalid OTP''))
                                          ''Invalid OTP code''),
            loading := False\<rparr>
      | Rejected m \<Rightarrow>
          s\<lparr>toast := error_toast (or_else (Some m) ''Invalid OTP code''), loading := False\<rparr>)"

text \<open>The input element lets its value grow to \<open>maxLength\<close> code units and no further.\<close>

datatype ResultUserAction =
  ClickSendCode | ClickResend | TypeOtp string | SubmitOtp | CloseResultToast

datatype ResultReply = OtpRequestReply "string Response" | ViewReply "ResultDetail Response"

datatype ResultAction = RUser ResultUserAction | RReply ResultReply

definition otp_form_shown :: "ResultPage \<Rightarrow> bool" where
  "otp_form_shown s \<longleftrightarrow> result s = None \<and> step s = ViewResult"

fun result_step :: "string \<Rightarrow> ResultAction \<Rightarrow> ResultPage World \<Rightarrow> ResultPage World" where
  "result_step resultId (RUser ClickSendCode) w =
     (if result (ui w) = None \<and> step (ui w) = RequestOtp \<and> \<not> loading (ui w)
      then handleRequestOTP resultId w else w)"
| "result_step resultId (RUser ClickResend) w =
     (if otp_form_shown (ui w) \<and> \<not> loading (ui w) then handleRequestOTP resultId w else w)"
| "result_step resultId (RUser (TypeOtp v)) w =
     (if otp_form_shown (ui w)
      then modify (\<lambda>s. s\<lparr>otp := strip_non_digits (take maxLength v)\<rparr>) w else w)"
| "result_step resultId (RUser SubmitOtp) w =
     (if otp_form_shown (ui w) \<and> \<not> (loading (ui w) \<or> length (otp (ui w)) \<noteq> 6)
      then handleVerifyOTP resultId w else w)"
| "result_step resultId (RUser CloseResultToast) w =
     modify (\<lambda>s. s\<lparr>toast := (toast s)\<lparr>toast_show := False\<rparr>\<rparr>) w"
| "result_step resultId (RReply (OtpRequestReply r)) w =
     (case find is_otp_request (in_flight w) of
        None \<Rightarrow> w
      | Some q \<Rightarrow> modify (handleRequestOTP_resume r) (receive q w))"
| "result_step resultId (RReply (ViewReply r)) w =
     (case find is_view_request (in_flight w) of
        None \<Rightarrow> w
      | Some q \<Rightarrow> modify (handleVerifyOTP_resume r) (receive q w))"

definition result_run :: "string \<Rightarrow> ClientStorage \<Rightarrow> ResultAction list \<Rightarrow> ResultPage World" where
  "result_run resultId st acts =
     foldl (\<lambda>w a. result_step resultId a w) (fresh_world initial_result_page st) acts"

definition verified :: "ResultAction \<Rightarrow> bool" where
  "verified a = (case a of RReply (ViewReply (Ok _)) \<Rightarrow> True | _ \<Rightarrow> False)"

definition six_digits :: "string \<Rightarrow> bool" where
  "six_digits code \<longleftrightarrow> length code = 6 \<and> list_all is_digit code"

definition otp_codes_sent :: "NetEvent list \<Rightarrow> string list" where
  "otp_codes_sent es =
     concat (map (\<lambda>e. case e of Sent (PostViewResult _ _ code) \<Rightarrow> [code] | _ \<Rightarrow> []) es)"

section \<open>Admin dashboard page\<close>

record AdminDashboardPage =
  stats :: DashboardStats
  recentActivity :: "Activity list"
  bookingTrends :: "BookingTrend list"
  loading :: bool
  toast :: Toast

definition initial_admin_dashboard :: AdminDashboardPage where
  "initial_admin_dashboard =
     \<lparr>stats = \<lparr>active_events = 0, total_participants = 0, tests_completed = 0,
               bookings_this_month = 0\<rparr>,
      recentActivity = [], bookingTrends = [], loading = True, toast = no_toast\<rparr>"

text \<open>\<open>fetchDashboardData\<close>, cut at its three \<open>await fetch\<close> (lines 65-106).\<close>

definition admin_mount :: "AdminDashboardPage World \<Rightarrow> AdminDashboardPage World" where
  "admin_mount w = (case read_token w of (token, w1) \<Rightarrow> send (GetAdminStats token) w1)"

definition dashboard_failed :: "AdminDashboardPage \<Rightarrow> AdminDashboardPage" where
  "dashboard_failed s =
     s\<lparr>toast := error_toast ''Failed to load dashboard data'', loading := False\<rparr>"

datatype AdminReply =
    StatsReply "DashboardStats Response"
  | ActivityReply "Activity list Response"
  | TrendsReply "BookingTrend list Response"

fun admin_deliver :: "AdminReply \<Rightarrow> AdminDashboardPage World \<Rightarrow> AdminDashboardPage World" where
  "admin_deliver (StatsReply r) w =
     (case find is_stats_request (in_flight w) of
        Some (GetAdminStats token) \<Rightarrow>
          let w1 = receive (GetAdminStats token) w
          in (case r of
                Rejected m \<Rightarrow> modify dashboard_failed w1
              | NotOk d \<Rightarrow> send (GetAdminActivity token) w1
              | Ok statsData \<Rightarrow>
                  send (GetAdminActivity token) (modify (\<lambda>s. s\<lparr>stats := statsData\<rparr>) w1))
      | _ \<Rightarrow> w)"
| "admin_deliver (ActivityReply r) w =
     (case find is_activity_request (in_flight w) of
        Some (GetAdminActivity token) \<Rightarrow>
          let w1 = receive (GetAdminActivity token) w
          in (case r of
                Rejected m \<Rightarrow> modify dashboard_failed w1
              | NotOk d \<Rightarrow> send (GetAdminTrends token) w1
              | Ok activities \<Rightarrow>
                  send (GetAdminTrends token)
                    (modify (\<lambda>s. s\<lparr>recentActivity := activities\<rparr>) w1))
      | _ \<Rightarrow> w)"
| "admin_deliver (TrendsReply r) w =
     (case find is_trends_request (in_flight w) of
        Some (GetAdminTrends token) \<Rightarrow>
          let w1 = receive (GetAdminTrends token) w
          in (case r of
                Rejected m \<Rightarrow> modify dashboard_failed w1
              | NotOk d \<Rightarrow> modify (\<lambda>s. s\<lparr>loading := False\<rparr>) w1
              | Ok trends \<Rightarrow>
                  modify (\<lambda>s. s\<lparr>bookingTrends := trends, loading := False\<rparr>) w1)
      | _ \<Rightarrow> w)"

definition admin_run :: "ClientStorage \<Rightarrow> AdminReply list \<Rightarrow> AdminDashboardPage World" where
  "admin_run st rs =
     foldl (\<lambda>w r. admin_deliver r w) (admin_mount (fresh_world initial_admin_dashboard st)) rs"

text \<open>The requests the two mount sequences are made of.\<close>

definition load_request :: "Request \<Rightarrow> bool" where
  "load_request q = (case q of GetEvent _ \<Rightarrow> True | GetTimeSlots _ \<Rightarrow> True | _ \<Rightarrow> False)"

definition dashboard_request :: "Request \<Rightarrow> bool" where
  "dashboard_request q =
     (case q of GetAdminStats _ \<Rightarrow> True | GetAdminActivity _ \<Rightarrow> True
              | GetAdminTrends _ \<Rightarrow> True | _ \<Rightarrow> False)"

definition about :: "(Request \<Rightarrow> bool) \<Rightarrow> NetEvent \<Rightarrow> bool" where
  "about P e = (case e of Sent q \<Rightarrow> P q | Received q \<Rightarrow> P q)"

text \<open>One after another: every request is answered before the next one is sent.\<close>

fun one_at_a_time :: "Request list \<Rightarrow> NetEvent list" where
  "one_at_a_time [] = []"
| "one_at_a_time (q # qs) = Sent q # Received q # one_at_a_time qs"

section \<open>Dates\<close>

text \<open>
  \<open>new Date(s)\<close> and the clock are the browser's. \<open>parseDate s\<close> is the time value of
  \<open>new Date(s)\<close> in milliseconds, \<open>None\<close> for an invalid date; \<open>now\<close> is \<open>new Date()\<close>,
  \<open>today\<close> is \<open>new Date()\<close> after \<open>setHours(0, 0, 0, 0)\<close>, \<open>nowISO\<close> is
  \<open>new Date().toISOString()\<close>. A comparison with an invalid date is false.
\<close>

record Clock =
  parseDate :: "string \<Rightarrow> int option"
  now :: int
  today :: int
  nowISO :: string

fun date_ge :: "int option \<Rightarrow> int \<Rightarrow> bool" where
  "date_ge None d = False"
| "date_ge (Some t) d = (t \<ge> d)"

fun date_lt :: "int option \<Rightarrow> int \<Rightarrow> bool" where
  "date_lt None d = False"
| "date_lt (Some t) d = (t < d)"

text \<open>An awaited fetch of a handler that is followed from its call to its end.\<close>

definition await_fetch :: "Request \<Rightarrow> 'ui World \<Rightarrow> 'ui World" where
  "await_fetch q w = receive q (send q w)"

section \<open>My bookings page\<close>

datatype FilterType = FilterAll | Upcoming | Past | Cancelled

record MyBookingsPage =
  bookings :: "Booking list"
  filteredBookings :: "Booking list"
  loading :: bool
  cancelingIds :: "string set"
  activeFilter :: FilterType
  showQRModal :: bool
  selectedBooking :: "Booking option"
  toast :: Toast
  pendingRefresh :: nat

text \<open>\<open>pendingRefresh\<close> counts the timers set by \<open>setTimeout(() => fetchBookings(), 1000)\<close>;
  it is not component state.\<close>

definition initial_my_bookings :: MyBookingsPage where
  "initial_my_bookings =
     \<lparr>bookings = [], filteredBookings = [], loading = True, cancelingIds = {},
      activeFilter = FilterAll, showQRModal = False, selectedBooking = None,
      toast = no_toast, pendingRefresh = 0\<rparr>"

definition eventDate :: "Clock \<Rightarrow> Booking \<Rightarrow> int option" where
  "eventDate c b = parseDate c (event_date (bk_event b))"

text \<open>\<open>filterBookings\<close> (lines 427-453).\<close>

definition filter_by :: "Clock \<Rightarrow> FilterType \<Rightarrow> Booking list \<Rightarrow> Booking list" where
  "filter_by c f bs =
     (case f of
        Upcoming \<Rightarrow>
          filter (\<lambda>b. date_ge (eventDate c b) (today c) \<and> booking_status b \<noteq> ''cancelled'') bs
      | Past \<Rightarrow>
          filter (\<lambda>b. date_lt (eventDate c b) (today c) \<and> booking_status b \<noteq> ''cancelled'') bs
      | Cancelled \<Rightarrow> filter (\<lambda>b. booking_status b = ''cancelled'') bs
      | FilterAll \<Rightarrow> bs)"

definition filterBookings :: "Clock \<Rightarrow> MyBookingsPage \<Rightarrow> MyBookingsPage" where
  "filterBookings c s = s\<lparr>filteredBookings := filter_by c (activeFilter s) (bookings s)\<rparr>"

text \<open>The counts on the filter tabs (lines 561-567, 618-647).\<close>

definition upcomingCount :: "Clock \<Rightarrow> Booking list \<Rightarrow> nat" where
  "upcomingCount c bs =
     length (filter (\<lambda>b. date_ge (eventDate c b) (now c) \<and> booking_status b \<noteq> ''cancelled'') bs)"

definition pastCount :: "Clock \<Rightarrow> Booking list \<Rightarrow> nat" where
  "pastCount c bs =
     length (filter (\<lambda>b. date_lt (eventDate c b) (now c) \<and> booking_status b \<noteq> ''cancelled'') bs)"

definition cancelledCount :: "Booking list \<Rightarrow> nat" where
  "cancelledCount bs = length (filter (\<lambda>b. booking_status b = ''cancelled'') bs)"

definition tab_count :: "Clock \<Rightarrow> FilterType \<Rightarrow> Booking list \<Rightarrow> nat" where
  "tab_count c f bs =
     (case f of FilterAll \<Rightarrow> length bs | Upcoming \<Rightarrow> upcomingCount c bs
              | Past \<Rightarrow> pastCount c bs | Cancelled \<Rightarrow> cancelledCount bs)"

text \<open>\<open>fetchBookings\<close> (lines 396-425); without a token the page is left for the login.
  The effect of lines 392-394 runs \<open>filterBookings\<close> after \<open>bookings\<close> or \<open>activeFilter\<close>
  changed.\<close>

definition fetchBookings ::
  "Clock \<Rightarrow> Booking list Response \<Rightarrow> MyBookingsPage World \<Rightarrow> MyBookingsPage World" where
  "fetchBookings c reply w0 =
     (case read_token w0 of (token, w1) \<Rightarrow>
        if \<not> truthy token then w1
        else modify (\<lambda>s. case reply of
                       Ok data \<Rightarrow>
                         filterBookings c
                           (s\<lparr>bookings := data, filteredBookings := data, loading := False\<rparr>)
                     | NotOk d \<Rightarrow>
                         s\<lparr>toast := error_toast ''Failed to fetch bookings'', loading := False\<rparr>
                     | Rejected m \<Rightarrow>
                         s\<lparr>toast := error_toast (or_else (Some m) ''Failed to load bookings''),
                           loading := False\<rparr>)
               (await_fetch (GetParticipantBookings token) w1))"

text \<open>\<open>handleCancelBooking\<close> (lines 455-508); the reply's \<open>Ok\<close> carries \<open>data.message\<close>.\<close>

definition mark_cancelled :: "Clock \<Rightarrow> string \<Rightarrow> Booking list \<Rightarrow> Booking list" where
  "mark_cancelled c bookingId prev =
     map (\<lambda>b. if bk_id b = bookingId
               then b\<lparr>booking_status := ''cancelled'', cancelled_at := Some (nowISO c)\<rparr>
               else b) prev"

definition handleCancelBooking ::
  "Clock \<Rightarrow> string \<Rightarrow> string option Response \<Rightarrow> MyBookingsPage World \<Rightarrow> MyBookingsPage World"
  where
  "handleCancelBooking c bookingId reply w0 =
     (let w1 = modify (\<lambda>s. s\<lparr>cancelingIds := insert bookingId (cancelingIds s)\<rparr>) w0
      in case read_token w1 of (token, w2) \<Rightarrow>
        modify (\<lambda>s. (case reply of
                        Ok msg \<Rightarrow>
                          filterBookings c
                            (s\<lparr>toast := success_toast (or_else msg ''Booking cancelled successfully''),
                               bookings := mark_cancelled c bookingId (bookings s),
                               pendingRefresh := Suc (pendingRefresh s)\<rparr>)
                      | NotOk d \<Rightarrow>
                          s\<lparr>toast := error_toast
                                (or_else (Some (or_else d ''Failed to cancel booking''))
                                   ''Failed to cancel booking'')\<rparr>
                      | Rejected m \<Rightarrow>
                          s\<lparr>toast := error_toast (or_else (Some m) ''Failed to cancel booking'')\<rparr>)
                     \<lparr>cancelingIds := cancelingIds s - {bookingId}\<rparr>)
          (await_fetch (PostCancelBooking bookingId token) w2))"

text \<open>The action buttons of a booking card (lines 674-677, 741-762).\<close>

definition isPast :: "Clock \<Rightarrow> Booking \<Rightarrow> bool" where
  "isPast c b = date_lt (eventDate c b) (now c)"

definition cancel_rendered :: "Clock \<Rightarrow> Booking \<Rightarrow> bool" where
  "cancel_rendered c b \<longleftrightarrow> \<not> (booking_status b = ''cancelled'') \<and> \<not> isPast c b"

datatype MyBookingsAction =
    SelectFilter FilterType
  | ClickCancel nat "string option Response"
  | ClickShowQR nat
  | CloseQR
  | RefreshFires "Booking list Response"
  | CloseBookingsToast

fun my_bookings_step ::
  "Clock \<Rightarrow> MyBookingsAction \<Rightarrow> MyBookingsPage World \<Rightarrow> MyBookingsPage World" where
  "my_bookings_step c (SelectFilter f) w =
     (if loading (ui w) \<or> f = activeFilter (ui w) then w
      else modify (\<lambda>s. filterBookings c (s\<lparr>activeFilter := f\<rparr>)) w)"
| "my_bookings_step c (ClickCancel i reply) w =
     (if \<not> loading (ui w) \<and> i < length (filteredBookings (ui w))
         \<and> cancel_rendered c (filteredBookings (ui w) ! i)
         \<and> bk_id (filteredBookings (ui w) ! i) \<notin> cancelingIds (ui w)
      then handleCancelBooking c (bk_id (filteredBookings (ui w) ! i)) reply w else w)"
| "my_bookings_step c (ClickShowQR i) w =
     (if \<not> loading (ui w) \<and> i < length (filteredBookings (ui w))
         \<and> cancel_rendered c (filteredBookings (ui w) ! i)
      then modify (\<lambda>s. s\<lparr>selectedBooking := Some (filteredBookings s ! i),
                          showQRModal := True\<rparr>) w
      else w)"
| "my_bookings_step c CloseQR w = modify (\<lambda>s. s\<lparr>showQRModal := False\<rparr>) w"
| "my_bookings_step c (RefreshFires reply) w =
     (if pendingRefresh (ui w) = 0 then w
      else fetchBookings c reply (modify (\<lambda>s. s\<lparr>pendingRefresh := pendingRefresh s - 1\<rparr>) w))"
| "my_bookings_step c CloseBookingsToast w =
     (if loading (ui w) then w
      else modify (\<lambda>s. s\<lparr>toast := (toast s)\<lparr>toast_show := False\<rparr>\<rparr>) w)"

section \<open>Events page (events/page.tsx)\<close>

text \<open>
  \<open>String.prototype.toLowerCase\<close> is the browser's: it follows the Unicode case mappings,
  which do not always work letter by letter. The pages that call it take it as the parameter
  \<open>toLowerCase\<close>. \<open>str_includes s t\<close> is \<open>s.includes(t)\<close>.
\<close>

fun str_includes :: "'a list \<Rightarrow> 'a list \<Rightarrow> bool" where
  "str_includes [] t = (t = [])"
| "str_includes (c # s) t = (prefix t (c # s) \<or> str_includes s t)"

record EventsPage =
  events :: "Event list"
  bookedEventIds :: "string set"
  searchLocation :: code_units
  selectedDate :: string
  loading :: bool
  userRole :: "string option"
  toast :: Toast

definition initial_events_page :: EventsPage where
  "initial_events_page =
     \<lparr>events = [], bookedEventIds = {}, searchLocation = [], selectedDate = [],
      loading = True, userRole = None, toast = no_toast\<rparr>"

text \<open>\<open>filteredEvents\<close> (lines 118-122), the list the page maps to cards.\<close>

definition filteredEvents :: "(code_units \<Rightarrow> code_units) \<Rightarrow> EventsPage \<Rightarrow> Event list" where
  "filteredEvents toLowerCase s =
     filter (\<lambda>event.
        let matchesLocation =
              str_includes (toLowerCase (address event)) (toLowerCase (searchLocation s));
            matchesDate = (if selectedDate s \<noteq> [] then event_date event = selectedDate s else True)
        in matchesLocation \<and> matchesDate) (events s)"

datatype EventsUserAction = TypeLocation code_units | PickDate string | ClearFilters

fun events_input ::
  "(code_units \<Rightarrow> code_units) \<Rightarrow> EventsUserAction \<Rightarrow> EventsPage \<Rightarrow> EventsPage" where
  "events_input toLowerCase (TypeLocation v) s = s\<lparr>searchLocation := v\<rparr>"
| "events_input toLowerCase (PickDate d) s = s\<lparr>selectedDate := d\<rparr>"
| "events_input toLowerCase ClearFilters s =
     (if \<not> loading s \<and> filteredEvents toLowerCase s = []
         \<and> (searchLocation s \<noteq> [] \<or> selectedDate s \<noteq> [])
      then s\<lparr>searchLocation := [], selectedDate := []\<rparr> else s)"

text \<open>\<open>fetchEvents\<close> (lines 65-89) reads \<open>userRole\<close> as the render that made the closure saw it.\<close>

definition fetchEvents ::
  "string option \<Rightarrow> Event list Response \<Rightarrow> EventsPage World \<Rightarrow> EventsPage World" where
  "fetchEvents roleSeen reply w0 =
     (let w1 = modify (\<lambda>s. s\<lparr>loading := True\<rparr>) w0
      in case read_token w1 of (token, w2) \<Rightarrow>
        modify (\<lambda>s. case reply of
                  Ok data \<Rightarrow> s\<lparr>events := data, loading := False\<rparr>
                | NotOk d \<Rightarrow>
                    s\<lparr>toast := error_toast ''Failed to fetch events'', loading := False\<rparr>
                | Rejected m \<Rightarrow>
                    s\<lparr>toast := error_toast (or_else (Some m) ''Error fetching events''),
                      loading := False\<rparr>)
          (await_fetch (GetEvents (roleSeen \<noteq> Some ''admin'')
                          (if truthy token then token else None)) w2))"

definition fetchParticipantBookings ::
  "string \<Rightarrow> Booking list Response \<Rightarrow> EventsPage World \<Rightarrow> EventsPage World" where
  "fetchParticipantBookings token reply w =
     (let w1 = await_fetch (GetParticipantBookings (Some token)) w
      in case reply of
           Ok data \<Rightarrow>
             modify (\<lambda>s. s\<lparr>bookedEventIds := set (map (\<lambda>b. ev_id (bk_event b)) data)\<rparr>) w1
         | _ \<Rightarrow> w1)"

text \<open>The mount effect (lines 49-63).\<close>

definition events_mount ::
  "(string \<Rightarrow> string option option) \<Rightarrow> Booking list Response \<Rightarrow> Event list Response
   \<Rightarrow> EventsPage World \<Rightarrow> EventsPage World" where
  "events_mount decodeRole bookingsReply eventsReply w0 =
     (case read_token w0 of (token, w1) \<Rightarrow>
        fetchEvents (userRole (ui w0)) eventsReply
          (case token of
             None \<Rightarrow> w1
           | Some t \<Rightarrow>
               if t = [] then w1
               else (case decodeRole t of
                       None \<Rightarrow> w1
                     | Some role \<Rightarrow>
                         let w2 = modify (\<lambda>s. s\<lparr>userRole := role\<rparr>) w1
                         in if role = Some ''participant''
                            then fetchParticipantBookings t bookingsReply w2 else w2)))"

section \<open>Participant dashboard page\<close>

text \<open>
  \<open>Array.prototype.sort\<close> is stable; \<open>sort_with le\<close> sorts by a comparator whose result is
  \<open>\<le> 0\<close> exactly when \<open>le\<close> holds. A comparator result of \<open>NaN\<close> counts as \<open>0\<close>.
\<close>

fun insert_with :: "('a \<Rightarrow> 'a \<Rightarrow> bool) \<Rightarrow> 'a \<Rightarrow> 'a list \<Rightarrow> 'a list" where
  "insert_with le x [] = [x]"
| "insert_with le x (y # ys) = (if le x y then x # y # ys else y # insert_with le x ys)"

definition sort_with :: "('a \<Rightarrow> 'a \<Rightarrow> bool) \<Rightarrow> 'a list \<Rightarrow> 'a list" where
  "sort_with le xs = foldr (insert_with le) xs []"

fun time_le :: "int option \<Rightarrow> int option \<Rightarrow> bool" where
  "time_le (Some a) (Some b) = (a \<le> b)"
| "time_le _ _ = True"

record ParticipantDashboardPage =
  upcomingEvents :: "Event list"
  myBookings :: "Booking list"
  recentResults :: "ParticipantResult list"
  loading :: bool
  toast :: Toast

definition initial_participant_dashboard :: ParticipantDashboardPage where
  "initial_participant_dashboard =
     \<lparr>upcomingEvents = [], myBookings = [], recentResults = [], loading = True,
      toast = no_toast\<rparr>"

definition upcoming_events :: "Clock \<Rightarrow> Event list \<Rightarrow> Event list" where
  "upcoming_events c eventsData =
     take 3 (sort_with (\<lambda>a b. time_le (parseDate c (event_date a)) (parseDate c (event_date b)))
               (filter (\<lambda>e. date_ge (parseDate c (event_date e)) (now c)) eventsData))"

definition upcoming_bookings :: "Clock \<Rightarrow> Booking list \<Rightarrow> Booking list" where
  "upcoming_bookings c bookingsData =
     take 2 (sort_with (\<lambda>a b. time_le (eventDate c a) (eventDate c b))
               (filter (\<lambda>b. date_ge (eventDate c b) (now c) \<and> booking_status b \<noteq> ''cancelled'')
                  bookingsData))"

definition recent_results :: "Clock \<Rightarrow> ParticipantResult list \<Rightarrow> ParticipantResult list" where
  "recent_results c resultsData =
     take 2 (sort_with (\<lambda>a b. time_le (parseDate c (uploaded_at b)) (parseDate c (uploaded_at a)))
               (filter result_available resultsData))"

definition participant_dashboard_failed ::
  "ParticipantDashboardPage \<Rightarrow> ParticipantDashboardPage" where
  "participant_dashboard_failed s =
     s\<lparr>toast := error_toast ''Failed to load dashboard data'', loading := False\<rparr>"

text \<open>\<open>fetchDashboardData\<close> of the participant dashboard, from its call to its end: a reply
  that is not \<open>Ok\<close> but did not throw skips its block, a thrown error ends in \<open>catch\<close>.\<close>

definition fetchDashboardData ::
  "Clock \<Rightarrow> Event list Response \<Rightarrow> Booking list Response \<Rightarrow> ParticipantResult list Response
   \<Rightarrow> ParticipantDashboardPage World \<Rightarrow> ParticipantDashboardPage World" where
  "fetchDashboardData c eventsRes bookingsRes resultsRes w0 =
     (case read_token w0 of (token, w1) \<Rightarrow>
        let w2 = await_fetch (GetEvents True None) w1
        in (case eventsRes of
              Rejected m \<Rightarrow> modify participant_dashboard_failed w2
            | _ \<Rightarrow>
              let w3 = await_fetch (GetParticipantBookings token)
                         (modify (\<lambda>s. case eventsRes of
                                    Ok d \<Rightarrow> s\<lparr>upcomingEvents := upcoming_events c d\<rparr>
                                  | _ \<Rightarrow> s) w2)
              in (case bookingsRes of
                    Rejected m \<Rightarrow> modify participant_dashboard_failed w3
                  | _ \<Rightarrow>
                    let w4 = await_fetch (GetParticipantResults token)
                               (modify (\<lambda>s. case bookingsRes of
                                          Ok d \<Rightarrow> s\<lparr>myBookings := upcoming_bookings c d\<rparr>
                                        | _ \<Rightarrow> s) w3)
                    in (case resultsRes of
                          Rejected m \<Rightarrow> modify participant_dashboard_failed w4
                        | NotOk d \<Rightarrow> modify (\<lambda>s. s\<lparr>loading := False\<rparr>) w4
                        | Ok d \<Rightarrow>
                            modify (\<lambda>s. s\<lparr>recentResults := recent_results c d,
                                           loading := False\<rparr>) w4))))"

section \<open>My results page\<close>

datatype ResultFilter = AllResults | AvailableResults | PendingResults

record MyResultsPage =
  results :: "ParticipantResult list"
  filteredResults :: "ParticipantResult list"
  loading :: bool
  searchTerm :: string
  activeFilter :: ResultFilter
  toast :: Toast

definition initial_my_results :: MyResultsPage where
  "initial_my_results =
     \<lparr>results = [], filteredResults = [], loading = True, searchTerm = [],
      activeFilter = AllResults, toast = no_toast\<rparr>"

definition filterResults :: "(string \<Rightarrow> string) \<Rightarrow> MyResultsPage \<Rightarrow> MyResultsPage" where
  "filterResults toLowerCase s =
     (let byStatus =
            (case activeFilter s of
               AvailableResults \<Rightarrow> filter result_available (results s)
             | PendingResults \<Rightarrow> filter (\<lambda>r. \<not> result_available r) (results s)
             | AllResults \<Rightarrow> results s);
          filtered =
            (if searchTerm s \<noteq> []
             then filter (\<lambda>r. str_includes (toLowerCase (pr_event_name r)) (toLowerCase (searchTerm s))
                               \<or> str_includes (toLowerCase (pr_result_category r))
                                    (toLowerCase (searchTerm s))) byStatus
             else byStatus)
      in s\<lparr>filteredResults := filtered\<rparr>)"

definition fetchResults ::
  "(string \<Rightarrow> string) \<Rightarrow> ParticipantResult list Response \<Rightarrow> MyResultsPage World
   \<Rightarrow> MyResultsPage World" where
  "fetchResults toLowerCase reply w0 =
     (case read_token w0 of (token, w1) \<Rightarrow>
        modify (\<lambda>s. case reply of
                  Ok data \<Rightarrow>
                    filterResults toLowerCase
                      (s\<lparr>results := data, filteredResults := data, loading := False\<rparr>)
                | NotOk d \<Rightarrow>
                    s\<lparr>toast := error_toast ''Failed to fetch results'', loading := False\<rparr>
                | Rejected m \<Rightarrow>
                    s\<lparr>toast := error_toast (or_else (Some m) ''Failed to load results''),
                      loading := False\<rparr>)
          (await_fetch (GetParticipantResults token) w1))"

datatype MyResultsAction = TypeSearchTerm string | SelectResultFilter ResultFilter

fun my_results_input ::
  "(string \<Rightarrow> string) \<Rightarrow> MyResultsAction \<Rightarrow> MyResultsPage \<Rightarrow> MyResultsPage" where
  "my_results_input toLowerCase (TypeSearchTerm v) s =
     (if \<not> loading s \<and> results s \<noteq> []
      then filterResults toLowerCase (s\<lparr>searchTerm := v\<rparr>) else s)"
| "my_results_input toLowerCase (SelectResultFilter f) s =
     (if \<not> loading s \<and> results s \<noteq> []
      then filterResults toLowerCase (s\<lparr>activeFilter := f\<rparr>) else s)"

section \<open>Admin events page\<close>

text \<open>\<open>alerts\<close> collects the calls of \<open>window.alert\<close>; it is not component state.\<close>

record AdminEventsPage =
  events :: "Event list"
  loading :: bool
  error :: string
  alerts :: "string list"

definition initial_admin_events :: AdminEventsPage where
  "initial_admin_events = \<lparr>events = [], loading = True, error = [], alerts = []\<rparr>"

definition admin_fetchEvents ::
  "Event list Response \<Rightarrow> AdminEventsPage World \<Rightarrow> AdminEventsPage World" where
  "admin_fetchEvents reply w0 =
     (case read_token w0 of (token, w1) \<Rightarrow>
        modify (\<lambda>s. case reply of
                  Ok data \<Rightarrow> s\<lparr>events := data, loading := False\<rparr>
                | _ \<Rightarrow> s\<lparr>error := ''Failed to load events'', loading := False\<rparr>)
          (await_fetch (GetAdminEvents token) w1))"

text \<open>\<open>handleDelete\<close>: \<open>confirmed\<close> is the answer to \<open>window.confirm\<close>; after a successful
  delete the list is fetched again.\<close>

definition handleDelete ::
  "string \<Rightarrow> bool \<Rightarrow> unit Response \<Rightarrow> Event list Response
   \<Rightarrow> AdminEventsPage World \<Rightarrow> AdminEventsPage World" where
  "handleDelete eventId confirmed reply refreshReply w0 =
     (if \<not> confirmed then w0
      else case read_token w0 of (token, w1) \<Rightarrow>
        let w2 = await_fetch (DeleteEvent eventId token) w1
        in (case reply of
              Ok u \<Rightarrow>
                admin_fetchEvents refreshReply
                  (modify (\<lambda>s. s\<lparr>alerts := alerts s @ [''Event deleted successfully!'']\<rparr>) w2)
            | NotOk d \<Rightarrow>
                modify (\<lambda>s. s\<lparr>alerts := alerts s @
                    [or_else (Some (or_else d ''Failed to delete event'')) ''Failed to delete event'']\<rparr>) w2
            | Rejected m \<Rightarrow>
                modify (\<lambda>s. s\<lparr>alerts := alerts s @
                    [or_else (Some m) ''Failed to delete event'']\<rparr>) w2))"

section \<open>What a handler may do to the client storage\<close>

text \<open>The stored items are the same, and what the log gained are reads of \<open>access_token\<close>.\<close>

definition only_reads_token :: "ClientStorage \<Rightarrow> ClientStorage \<Rightarrow> bool" where
  "only_reads_token st st' \<longleftrightarrow>
     items st' = items st
     \<and> take (length (oplog st)) (oplog st') = oplog st
     \<and> list_all (\<lambda>op. op = GetItem ''access_token'') (drop (length (oplog st)) (oplog st'))"

section \<open>Properties of steps and runs\<close>

text \<open>What a step of the booking page adds to the history of network events.\<close>

definition emitted :: "string \<Rightarrow> BookingPageAction \<Rightarrow> BookingPage World \<Rightarrow> NetEvent list" where
  "emitted eventId a w = drop (length (trace w)) (trace (booking_step eventId a w))"

text \<open>The address contains the search string when case is ignored: some part of the address
  and the search string are the same once both are put in lower case.\<close>

definition contains_ignoring_case :: "('a list \<Rightarrow> 'a list) \<Rightarrow> 'a list \<Rightarrow> 'a list \<Rightarrow> bool" where
  "contains_ignoring_case toLowerCase addr search \<longleftrightarrow>
     (\<exists>before part after. addr = before @ part @ after \<and> toLowerCase part = toLowerCase search)"

text \<open>
  Where the two loading requests of the booking page stand: the first is out, it has failed,
  the second is out, or both are answered. While one is out the page shows the loading
  text, so the wizard has not moved and no booking has been sent.
\<close>

definition load_invariant :: "string \<Rightarrow> BookingPage World \<Rightarrow> bool" where
  "load_invariant eventId w \<longleftrightarrow>
     (let t = filter (about load_request) (trace w);
          f = filter load_request (in_flight w);
          waiting = (BookingPage.loading (ui w) \<and> currentStep (ui w) = StepDetails
                     \<and> find is_booking_post (in_flight w) = None);
          settled = (\<not> BookingPage.loading (ui w)
                     \<and> (currentStep (ui w) = StepTimeSlot \<longrightarrow> hasTimeSlots (ui w)))
      in (t = [Sent (GetEvent eventId)] \<and> f = [GetEvent eventId] \<and> waiting)
       \<or> (t = [Sent (GetEvent eventId), Received (GetEvent eventId)] \<and> f = [] \<and> settled)
       \<or> (t = [Sent (GetEvent eventId), Received (GetEvent eventId), Sent (GetTimeSlots eventId)]
           \<and> f = [GetTimeSlots eventId] \<and> waiting)
       \<or> (t = one_at_a_time [GetEvent eventId, GetTimeSlots eventId] \<and> f = [] \<and> settled))"

text \<open>Where the three requests of the admin dashboard stand.\<close>

definition dashboard_invariant :: "string option \<Rightarrow> AdminDashboardPage World \<Rightarrow> bool" where
  "dashboard_invariant token w \<longleftrightarrow>
     (let s = GetAdminStats token; a = GetAdminActivity token; t = GetAdminTrends token
      in (trace w = [Sent s] \<and> in_flight w = [s])
       \<or> (trace w = [Sent s, Received s] \<and> in_flight w = [])
       \<or> (trace w = [Sent s, Received s, Sent a] \<and> in_flight w = [a])
       \<or> (trace w = [Sent s, Received s, Sent a, Received a] \<and> in_flight w = [])
       \<or> (trace w = [Sent s, Received s, Sent a, Received a, Sent t] \<and> in_flight w = [t])
       \<or> (trace w = one_at_a_time [s, a, t] \<and> in_flight w = []))"

text \<open>A result in the state has come with a received reply to a verification request.\<close>

definition result_received :: "ResultPage World \<Rightarrow> bool" where
  "result_received w \<longleftrightarrow>
     (result (ui w) \<noteq> None \<longrightarrow> (\<exists>q. is_view_request q \<and> Received q \<in> set (trace w)))"

text \<open>The stored code is made of digits, and so was every code sent.\<close>

definition codes_invariant :: "ResultPage World \<Rightarrow> bool" where
  "codes_invariant w \<longleftrightarrow>
     list_all is_digit (otp (ui w)) \<and> list_all six_digits (otp_codes_sent (trace w))"

section \<open>Sample inputs\<close>

definition sample_storage :: ClientStorage where
  "sample_storage = \<lparr>items = [''access_token'' \<mapsto> ''h.p.s''], oplog = []\<rparr>"

definition participant_token :: "string \<Rightarrow> string option option" where
  "participant_token t = Some (Some ''participant'')"

definition sample_event :: Event where
  "sample_event =
     \<lparr>ev_id = ''e1'', name = ''Screening day'', event_date = ''2026-11-03'',
      event_time = ''09:00:00'', address = units ''Dewan Serbaguna, Kuala Lumpur'',
      total_slots = 40, available_slots = 12, status = ''published'', additional_info = []\<rparr>"

definition other_event :: Event where
  "other_event =
     \<lparr>ev_id = ''e2'', name = ''Clinic visit'', event_date = ''2026-11-03'',
      event_time = ''10:00:00'', address = units ''Klinik Desa, Ipoh'',
      total_slots = 20, available_slots = 0, status = ''published'', additional_info = []\<rparr>"

definition sample_slots :: "TimeSlot list" where
  "sample_slots =
     [\<lparr>slot_start = ''09:00'', slot_end = ''09:30'', slots = 5, available = 3\<rparr>,
      \<lparr>slot_start = ''09:30'', slot_end = ''10:00'', slots = 5, available = 0\<rparr>]"



definition slots_run :: "BookingPageAction list" where
  "slots_run =
     [Reply (EventReply (Some sample_event)),
      Reply (SlotsReply (Some \<lparr>has_time_slots = True, slots_field = Some sample_slots\<rparr>)),
      User ClickContinueToEligibility,
      User (AnswerAge True), User (AnswerMenstruating False),
      User (AnswerHysterectomy False), User (AnswerHpvTest False),
      User ClickContinue, User (ClickSlot 1), User (ClickSlot 0), User ClickContinue,
      User (CheckTerms True)]"

definition slots_world :: "BookingPage World" where
  "slots_world = booking_run ''e1'' participant_token sample_storage slots_run"

definition answering_page :: BookingPage where
  "answering_page =
     initial_booking_page\<lparr>event := Some sample_event, BookingPage.loading := False,
        currentStep := StepEligibility,
        eligibility := \<lparr>age = Some False, menstruating = Some True, hysterectomy = Some False,
                        hpv_test = Some False\<rparr>\<rparr>"

definition sample_result :: ResultDetail where
  "sample_result =
     \<lparr>result_category = ''Normal'', result_notes = None, result_file_url = None,
      rd_event_name = ''Screening day'', rd_event_date = ''2026-11-03''\<rparr>"

definition wrong_code_run :: "ResultAction list" where
  "wrong_code_run =
     [RUser ClickSendCode, RReply (OtpRequestReply (Ok ''+60123456789'')),
      RUser (TypeOtp ''12a345''), RUser (TypeOtp ''123456''), RUser SubmitOtp,
      RReply (ViewReply (NotOk (Some ''Invalid OTP'')))]"

definition right_code_run :: "ResultAction list" where
  "right_code_run =
     [RUser ClickSendCode, RReply (OtpRequestReply (Ok ''+60123456789'')),
      RUser (TypeOtp ''12a345''), RUser (TypeOtp ''123456''), RUser SubmitOtp,
      RReply (ViewReply (Ok sample_result))]"

definition sample_stats :: DashboardStats where
  "sample_stats =
     \<lparr>active_events = 2, total_participants = 57, tests_completed = 31,
      bookings_this_month = 12\<rparr>"

definition dashboard_replies :: "AdminReply list" where
  "dashboard_replies = [StatsReply (Ok sample_stats), ActivityReply (NotOk None)]"

definition searching_page :: EventsPage where
  "searching_page =
     initial_events_page\<lparr>EventsPage.events := [sample_event, other_event],
        searchLocation := units ''kuala'', selectedDate := ''2026-11-03'',
        EventsPage.loading := False\<rparr>"

definition listing_page :: EventsPage where
  "listing_page =
     initial_events_page\<lparr>EventsPage.events := [sample_event, other_event],
        EventsPage.loading := False\<rparr>"

text \<open>
  \<open>String.prototype.toLowerCase\<close> on text made only of Basic Latin characters and
  unaccented Greek letters. A capital letter becomes the small one 32 code units further on,
  except that a capital sigma (931) that follows a letter and is not followed by one becomes
  the final small sigma (962) and not the small sigma (963). The samples are lowered with it; the
  theorems hold for every \<open>toLowerCase\<close>.
\<close>

definition cased :: "nat \<Rightarrow> bool" where
  "cased c \<longleftrightarrow>
     (65 \<le> c \<and> c \<le> 90) \<or> (97 \<le> c \<and> c \<le> 122) \<or> (913 \<le> c \<and> c \<le> 937 \<and> c \<noteq> 930)
     \<or> (945 \<le> c \<and> c \<le> 969)"

definition lower_unit :: "nat \<Rightarrow> nat" where
  "lower_unit c =
     (if (65 \<le> c \<and> c \<le> 90) \<or> (913 \<le> c \<and> c \<le> 937 \<and> c \<noteq> 930) then c + 32 else c)"

fun lower_after :: "bool \<Rightarrow> code_units \<Rightarrow> code_units" where
  "lower_after letter_before [] = []"
| "lower_after letter_before (c # cs) =
     (if c = 931 \<and> letter_before \<and> \<not> (case cs of [] \<Rightarrow> False | d # ds \<Rightarrow> cased d)
      then 962 else lower_unit c) # lower_after (cased c) cs"

definition sample_lower :: "code_units \<Rightarrow> code_units" where
  "sample_lower s = lower_after False s"

text \<open>An event in a street whose name, in Greek capitals, ends in sigma, and a search for
  the capital sigma.\<close>

definition street_event :: Event where
  "street_event =
     \<lparr>ev_id = ''e3'', name = ''Screening day'', event_date = ''2026-11-10'',
      event_time = ''09:00:00'', address = [927, 916, 927, 931],
      total_slots = 30, available_slots = 30, status = ''published'', additional_info = []\<rparr>"

definition sigma_search_page :: EventsPage where
  "sigma_search_page =
     initial_events_page\<lparr>EventsPage.events := [street_event], searchLocation := [931],
        EventsPage.loading := False\<rparr>"

definition noon_clock :: Clock where
  "noon_clock =
     \<lparr>parseDate = (\<lambda>s. if s = ''2026-11-03'' then Some 1793664000000 else None),
      now = 1793678400000, today = 1793635200000, nowISO = ''2026-11-03T04:00:00.000Z''\<rparr>"

definition morning_clock :: Clock where
  "morning_clock =
     \<lparr>parseDate = (\<lambda>s. if s = ''2026-11-03'' then Some 1793664000000
                        else if s = ''2026-11-20'' then Some 1795132800000 else None),
      now = 1793660400000, today = 1793635200000, nowISO = ''2026-11-02T23:00:00.000Z''\<rparr>"

definition todays_booking :: Booking where
  "todays_booking =
     \<lparr>bk_id = ''b1'', booking_reference = ''ROSE-0001'', booking_status = ''confirmed'',
      booked_at = ''2026-10-20T02:15:00Z'', cancelled_at = None, time_slot_start = None,
      time_slot_end = None, bk_event = sample_event\<rparr>"

definition later_booking :: Booking where
  "later_booking =
     \<lparr>bk_id = ''b2'', booking_reference = ''ROSE-0002'', booking_status = ''confirmed'',
      booked_at = ''2026-10-21T03:00:00Z'', cancelled_at = None, time_slot_start = Some ''09:00'',
      time_slot_end = Some ''09:30'',
      bk_event = other_event\<lparr>event_date := ''2026-11-20''\<rparr>\<rparr>"

definition bookings_world :: "MyBookingsPage World" where
  "bookings_world =
     fetchBookings morning_clock (Ok [todays_booking, later_booking])
       (fresh_world initial_my_bookings sample_storage)"

section \<open>Proofs\<close>

subsection \<open>The environment\<close>

lemma modify_simps [simp]:
  "ui (modify f w) = f (ui w)" "storage (modify f w) = storage w"
  "in_flight (modify f w) = in_flight w" "trace (modify f w) = trace w"
  by (simp_all add: modify_def)

lemma send_simps [simp]:
  "ui (send q w) = ui w" "storage (send q w) = storage w"
  "in_flight (send q w) = in_flight w @ [q]" "trace (send q w) = trace w @ [Sent q]"
  by (simp_all add: send_def)

lemma receive_simps [simp]:
  "ui (receive q w) = ui w" "storage (receive q w) = storage w"
  "in_flight (receive q w) = remove1 q (in_flight w)" "trace (receive q w) = trace w @ [Received q]"
  by (simp_all add: receive_def)

lemma await_fetch_simps [simp]:
  "ui (await_fetch q w) = ui w" "storage (await_fetch q w) = storage w"
  "trace (await_fetch q w) = trace w @ [Sent q, Received q]"
  by (simp_all add: await_fetch_def)

lemma read_token_eq:
  "read_token w =
     (items (storage w) ''access_token'',
      w\<lparr>storage := (storage w)\<lparr>oplog := oplog (storage w) @ [GetItem ''access_token'']\<rparr>\<rparr>)"
  by (simp add: read_token_def getItem_def)

lemma fresh_world_simps [simp]:
  "ui (fresh_world s st) = s" "storage (fresh_world s st) = st"
  "in_flight (fresh_world s st) = []" "trace (fresh_world s st) = []"
  by (simp_all add: fresh_world_def)

subsection \<open>The eligibility gate\<close>

lemma click_forward_from_eligibility:
  "card_rendered s \<Longrightarrow> BookingPage.currentStep s = StepEligibility \<Longrightarrow>
   BookingPage.currentStep (click a s) \<in> {StepTimeSlot, StepConfirmation, StepSuccess} \<Longrightarrow>
   a = ClickContinue \<and> canProceedFromEligibility (eligibility s)"
  by (cases a) (auto simp: set_answer_def split: if_splits)

text \<open>
  Claim C2. On the rendered eligibility step the Continue button moves the wizard on exactly
  when all four answers (age, menstruating, hysterectomy, hpv_test) are non-null, and no other
  click moves it forward. Answers that make \<open>isEligible\<close> false do not hold the wizard back:
  Continue still advances, and the warning note is shown; the note is shown exactly for
  complete answers that are not eligible.
\<close>
theorem eligibility_gating:
  assumes "card_rendered s" and "currentStep s = StepEligibility"
  shows "(currentStep (click ClickContinue s) \<noteq> StepEligibility
            \<longleftrightarrow> age (eligibility s) \<noteq> None \<and> menstruating (eligibility s) \<noteq> None
                \<and> hysterectomy (eligibility s) \<noteq> None \<and> hpv_test (eligibility s) \<noteq> None)
       \<and> (currentStep (click a s) \<in> {StepTimeSlot, StepConfirmation, StepSuccess}
            \<longrightarrow> a = ClickContinue \<and> canProceedFromEligibility (eligibility s))
       \<and> (canProceedFromEligibility (eligibility s) \<and> \<not> isEligible (eligibility s)
            \<longrightarrow> currentStep (click ClickContinue s)
                  = (if hasTimeSlots s then StepTimeSlot else StepConfirmation)
                \<and> eligibility_warning_shown (eligibility s))
       \<and> (eligibility_warning_shown (eligibility s)
            \<longleftrightarrow> canProceedFromEligibility (eligibility s) \<and> \<not> isEligible (eligibility s))"
  using assms click_forward_from_eligibility[of s a]
  by (auto simp: canProceedFromEligibility_def eligibility_warning_shown_def)

theorem eligibility_gating_witness:
  "card_rendered answering_page \<and> currentStep answering_page = StepEligibility
   \<and> \<not> isEligible (eligibility answering_page)
   \<and> currentStep (click ClickContinue answering_page) = StepConfirmation
   \<and> eligibility_warning_shown (eligibility answering_page)"
proof -
  have h1: "card_rendered answering_page"
    by (simp add: answering_page_def card_rendered_def initial_booking_page_def)
  have h2: "currentStep answering_page = StepEligibility"
    by (simp add: answering_page_def)
  show ?thesis
    using h1 h2 eligibility_gating[OF h1 h2, of ClickContinue]
    by (simp add: answering_page_def initial_booking_page_def isEligible_def
          canProceedFromEligibility_def)
qed

subsection \<open>Moves of the wizard\<close>



lemma booking_body_bookingLoading [simp]:
  "booking_body eid (s\<lparr>bookingLoading := b\<rparr>) = booking_body eid s"
  by (simp add: booking_body_def Let_def split: option.splits)

lemma handleBooking_ui:
  "ui (handleBooking eid w) =
     (if truthy (items (storage w) ''access_token'')
      then (ui w)\<lparr>bookingLoading := True\<rparr>
      else (ui w)\<lparr>bookingLoading := False,
                  BookingPage.toast := error_toast ''You must be logged in to book''\<rparr>)"
  by (simp add: handleBooking_def read_token_eq Let_def)

lemma handleBooking_trace:
  "trace (handleBooking eid w) =
     (if truthy (items (storage w) ''access_token'')
      then trace w @ [Sent (PostBooking (items (storage w) ''access_token'')
                                        (booking_body eid (ui w)))]
      else trace w)"
  by (simp add: handleBooking_def read_token_eq Let_def)

lemma handleBooking_in_flight:
  "in_flight (handleBooking eid w) =
     (if truthy (items (storage w) ''access_token'')
      then in_flight w @ [PostBooking (items (storage w) ''access_token'')
                                        (booking_body eid (ui w))]
      else in_flight w)"
  by (simp add: handleBooking_def read_token_eq Let_def)



lemma reply_moves:
  "currentStep (ui (booking_step eid (Reply r) w)) = currentStep (ui w)
   \<or> ((\<exists>reference. r = BookingPostReply (Ok reference))
       \<and> currentStep (ui (booking_step eid (Reply r) w)) = StepSuccess)"
  by (cases r)
     (auto simp: Let_def handleBooking_resume_def load_failed_def
           split: option.splits Response.splits)

subsection \<open>Loading the booking page\<close>

lemma click_while_loading: "BookingPage.loading s \<Longrightarrow> click a s = s"
  by (cases a) (auto simp: card_rendered_def set_answer_def)

lemma click_keeps_loading: "BookingPage.loading (click a s) = BookingPage.loading s"
  by (cases a) (auto simp: set_answer_def split: BookingStep.splits)

lemma click_keeps_hasTimeSlots: "hasTimeSlots (click a s) = hasTimeSlots s"
  by (cases a) (auto simp: set_answer_def split: BookingStep.splits)

lemma click_time_slot:
  "currentStep s = StepTimeSlot \<longrightarrow> hasTimeSlots s \<Longrightarrow>
   currentStep (click a s) = StepTimeSlot \<Longrightarrow> hasTimeSlots s"
  by (cases a) (auto simp: set_answer_def split: BookingStep.splits if_splits)

lemma load_request_simps [simp]:
  "load_request (GetEvent e)" "load_request (GetTimeSlots e)"
  "\<not> load_request (PostBooking t b)" "\<not> load_request (GetParticipantBookings t)"
  by (simp_all add: load_request_def)

lemma about_simps [simp]: "about P (Sent q) = P q" "about P (Received q) = P q"
  by (simp_all add: about_def)

lemma is_booking_post_simps [simp]:
  "is_booking_post (PostBooking t b)" "\<not> is_booking_post (GetEvent e)"
  "\<not> is_booking_post (GetTimeSlots e)" "\<not> is_booking_post (GetParticipantBookings t)"
  by (simp_all add: is_booking_post_def)

lemma not_load_if_post: "is_booking_post q \<Longrightarrow> \<not> load_request q"
  by (cases q) (simp_all add: is_booking_post_def load_request_def)

lemma not_load_if_bookings: "is_bookings_request q \<Longrightarrow> \<not> load_request q"
  by (cases q) (simp_all add: is_bookings_request_def load_request_def)

lemma filter_remove1_other: "\<not> P q \<Longrightarrow> filter P (remove1 q xs) = filter P xs"
  by (induction xs) auto

lemma find_None_remove1: "find P xs = None \<Longrightarrow> find P (remove1 q xs) = None"
  by (auto simp: find_None_iff dest: notin_set_remove1)

lemma find_None_append: "find P (xs @ ys) = None \<longleftrightarrow> find P xs = None \<and> find P ys = None"
  by (auto simp: find_None_iff)

lemma load_invariant_user:
  assumes "load_invariant eid w"
  shows "load_invariant eid (booking_step eid (User a) w)"
proof (cases "BookingPage.loading (ui w)")
  case True
  then have "booking_step eid (User a) w = w"
    by (cases "a = ClickConfirmBooking")
       (auto simp: confirm_enabled_def card_rendered_def click_while_loading modify_def)
  with assms show ?thesis by simp
next
  case False
  show ?thesis
  proof (cases "a = ClickConfirmBooking")
    case True
    with assms False show ?thesis
      by (auto simp: load_invariant_def Let_def handleBooking_ui handleBooking_trace
            handleBooking_in_flight)
  next
    case no: False
    with assms False show ?thesis
      using click_time_slot[of "ui w" a]
      by (auto simp: load_invariant_def Let_def click_keeps_loading click_keeps_hasTimeSlots)
  qed
qed

lemma find_SomeD: "find P xs = Some q \<Longrightarrow> P q \<and> q \<in> set xs"
  by (auto simp: find_Some_iff)

lemma in_filter_eq: "filter P xs = ys \<Longrightarrow> q \<in> set xs \<Longrightarrow> P q \<Longrightarrow> q \<in> set ys"
  by auto

lemma load_invariant_reply:
  assumes "load_invariant eid w"
  shows "load_invariant eid (booking_step eid (Reply r) w)"
proof (cases r)
  case (EventReply e)
  show ?thesis
  proof (cases "GetEvent eid \<in> set (in_flight w)")
    case False
    with assms EventReply show ?thesis by simp
  next
    case True
    then have m: "\<And>ys. filter load_request (in_flight w) = ys \<Longrightarrow> GetEvent eid \<in> set ys"
      by (auto dest: in_filter_eq[where P = load_request])
    from assms have ph: "filter (about load_request) (trace w) = [Sent (GetEvent eid)]"
      "filter load_request (in_flight w) = [GetEvent eid]"
      "BookingPage.loading (ui w)" "currentStep (ui w) = StepDetails"
      "find is_booking_post (in_flight w) = None"
      by (auto simp: load_invariant_def Let_def dest: m)
    have rm: "filter load_request (remove1 (GetEvent eid) (in_flight w)) = []"
      using ph(2) by (simp add: filter_remove1)
    show ?thesis using True EventReply ph rm
      by (cases e)
         (auto simp: load_invariant_def Let_def load_failed_def find_None_append
               find_None_remove1)
  qed
next
  case (SlotsReply sd)
  show ?thesis
  proof (cases "GetTimeSlots eid \<in> set (in_flight w)")
    case False
    with assms SlotsReply show ?thesis by simp
  next
    case True
    then have m: "\<And>ys. filter load_request (in_flight w) = ys \<Longrightarrow> GetTimeSlots eid \<in> set ys"
      by (auto dest: in_filter_eq[where P = load_request])
    from assms have ph:
      "filter (about load_request) (trace w)
         = [Sent (GetEvent eid), Received (GetEvent eid), Sent (GetTimeSlots eid)]"
      "filter load_request (in_flight w) = [GetTimeSlots eid]"
      "BookingPage.loading (ui w)" "currentStep (ui w) = StepDetails"
      by (auto simp: load_invariant_def Let_def dest: m)
    have rm: "filter load_request (remove1 (GetTimeSlots eid) (in_flight w)) = []"
      using ph(2) by (simp add: filter_remove1)
    show ?thesis using True SlotsReply ph rm
      by (cases sd) (auto simp: load_invariant_def Let_def load_failed_def)
  qed
next
  case (BookingsReply b)
  show ?thesis
  proof (cases "find is_bookings_request (in_flight w)")
    case None
    with assms BookingsReply show ?thesis by simp
  next
    case (Some q)
    then have q: "is_bookings_request q" by (simp add: find_SomeD)
    have nl: "\<not> load_request q" using q by (rule not_load_if_bookings)
    show ?thesis using assms BookingsReply Some nl
      by (cases b)
         (auto simp: load_invariant_def Let_def filter_remove1_other find_None_remove1)
  qed
next
  case (BookingPostReply b)
  show ?thesis
  proof (cases "find is_booking_post (in_flight w)")
    case None
    with assms BookingPostReply show ?thesis by simp
  next
    case (Some q)
    then have q: "is_booking_post q" by (simp add: find_SomeD)
    have nl: "\<not> load_request q" using q by (rule not_load_if_post)
    show ?thesis using assms BookingPostReply Some nl
      by (cases b)
         (auto simp: load_invariant_def Let_def filter_remove1_other handleBooking_resume_def)
  qed
qed

lemma load_invariant_step:
  "load_invariant eid w \<Longrightarrow> load_invariant eid (booking_step eid a w)"
  by (cases a) (simp_all only: load_invariant_user load_invariant_reply)

lemma booking_mount_view:
  "filter (about load_request) (trace (booking_mount eid dec (fresh_world initial_booking_page st)))
     = [Sent (GetEvent eid)]
   \<and> filter load_request (in_flight (booking_mount eid dec (fresh_world initial_booking_page st)))
     = [GetEvent eid]
   \<and> find is_booking_post (in_flight (booking_mount eid dec (fresh_world initial_booking_page st))) = None
   \<and> BookingPage.loading (ui (booking_mount eid dec (fresh_world initial_booking_page st)))
   \<and> currentStep (ui (booking_mount eid dec (fresh_world initial_booking_page st))) = StepDetails"
  by (auto simp: booking_mount_def fetchEventAndTimeSlots_def checkIfBooked_def read_token_eq
        Let_def initial_booking_page_def split: option.splits)

lemma load_invariant_mount:
  "load_invariant eid (booking_mount eid dec (fresh_world initial_booking_page st))"
  using booking_mount_view[of eid dec st] by (simp add: load_invariant_def Let_def)

lemma foldl_invariant:
  "I w \<Longrightarrow> (\<And>a w. I w \<Longrightarrow> I (f w a)) \<Longrightarrow> I (foldl f w as)"
  by (induction as arbitrary: w) auto

lemma load_invariant_run: "load_invariant eid (booking_run eid dec st acts)"
  unfolding booking_run_def
  by (rule foldl_invariant[where I = "load_invariant eid"])
     (simp_all add: load_invariant_mount load_invariant_step)

subsection \<open>The sequence of steps\<close>






subsection \<open>Booking requests\<close>

lemma emitted_user:
  "emitted eid (User a) w =
     (if a = ClickConfirmBooking \<and> confirm_enabled (ui w)
         \<and> truthy (items (storage w) ''access_token'')
      then [Sent (PostBooking (items (storage w) ''access_token'') (booking_body eid (ui w)))]
      else [])"
  by (simp add: emitted_def handleBooking_trace)

lemma emitted_reply_no_post:
  "Sent (PostBooking tok body) \<notin> set (emitted eid (Reply r) w)"
  by (cases r)
     (auto simp: emitted_def Let_def split: option.splits Response.splits)

lemma booking_body_fields:
  "body_event_id (booking_body eid s) = eid
   \<and> (hasTimeSlots s \<longrightarrow>
        (\<forall>slot. selectedTimeSlot s = Some slot \<longrightarrow>
           body_time_slot_start (booking_body eid s) = Some (slot_start slot)
           \<and> body_time_slot_end (booking_body eid s) = Some (slot_end slot)))"
  by (simp add: booking_body_def Let_def split: option.splits)

lemma click_selects:
  "selectedTimeSlot (click a s) \<noteq> selectedTimeSlot s \<Longrightarrow>
   \<exists>i. a = ClickSlot i \<and> i < length (timeSlots s) \<and> currentStep s = StepTimeSlot
       \<and> selectedTimeSlot (click a s) = Some (timeSlots s ! i)
       \<and> 0 < available (timeSlots s ! i)"
  by (cases a) (auto simp: set_answer_def isFull_def split: BookingStep.splits if_splits)

lemma step_selects:
  "selectedTimeSlot (ui (booking_step eid act w)) \<noteq> selectedTimeSlot (ui w) \<Longrightarrow>
   \<exists>i. act = User (ClickSlot i) \<and> i < length (timeSlots (ui w))
       \<and> currentStep (ui w) = StepTimeSlot
       \<and> selectedTimeSlot (ui (booking_step eid act w)) = Some (timeSlots (ui w) ! i)
       \<and> 0 < available (timeSlots (ui w) ! i)"
proof (cases act)
  case (User a)
  assume ch: "selectedTimeSlot (ui (booking_step eid act w)) \<noteq> selectedTimeSlot (ui w)"
  with User have "a \<noteq> ClickConfirmBooking"
    by (auto simp: handleBooking_ui split: if_splits)
  with ch User show ?thesis using click_selects[of a "ui w"] by auto
next
  case (Reply r)
  assume "selectedTimeSlot (ui (booking_step eid act w)) \<noteq> selectedTimeSlot (ui w)"
  with Reply show ?thesis
    by (cases r)
       (auto simp: Let_def handleBooking_resume_def load_failed_def
             split: option.splits Response.splits if_splits)
qed

lemma leaves_time_slot_forward:
  "currentStep (ui w) = StepTimeSlot \<Longrightarrow>
   currentStep (ui (booking_step eid act w)) = StepConfirmation \<Longrightarrow>
   act = User ClickContinue \<and> selectedTimeSlot (ui w) \<noteq> None"
proof (cases act)
  case (User a)
  assume "currentStep (ui w) = StepTimeSlot"
    "currentStep (ui (booking_step eid act w)) = StepConfirmation"
  with User show ?thesis
    by (cases a) (auto simp: handleBooking_ui set_answer_def split: if_splits)
next
  case (Reply r)
  assume "currentStep (ui w) = StepTimeSlot"
    "currentStep (ui (booking_step eid act w)) = StepConfirmation"
  with Reply show ?thesis using reply_moves[of eid r w] by auto
qed

text \<open>
  Claim C8. A booking-creation request is sent only by the Confirm button on the
  confirmation step with the terms accepted and no booking under way; its body names the
  page's event and, when the event has time slots and a slot is selected, carries that
  slot's start and end. The selected slot changes only by a click on a slot whose available
  count is positive, and the time-slot step is left for confirmation only by Continue with
  a slot selected.
\<close>
theorem booking_requests_well_formed:
  "(Sent (PostBooking tok body) \<in> set (emitted eid act w) \<longrightarrow>
      act = User ClickConfirmBooking \<and> acceptedTerms (ui w) \<and> \<not> bookingLoading (ui w)
      \<and> currentStep (ui w) = StepConfirmation
      \<and> body_event_id body = eid
      \<and> (hasTimeSlots (ui w) \<longrightarrow>
           (\<forall>slot. selectedTimeSlot (ui w) = Some slot \<longrightarrow>
              body_time_slot_start body = Some (slot_start slot)
              \<and> body_time_slot_end body = Some (slot_end slot))))
   \<and> (selectedTimeSlot (ui (booking_step eid act w)) \<noteq> selectedTimeSlot (ui w) \<longrightarrow>
        (\<exists>i. act = User (ClickSlot i) \<and> i < length (timeSlots (ui w))
            \<and> selectedTimeSlot (ui (booking_step eid act w)) = Some (timeSlots (ui w) ! i)
            \<and> 0 < available (timeSlots (ui w) ! i)))
   \<and> (currentStep (ui w) = StepTimeSlot
        \<and> currentStep (ui (booking_step eid act w)) = StepConfirmation
        \<longrightarrow> act = User ClickContinue \<and> selectedTimeSlot (ui w) \<noteq> None)"
proof (intro conjI impI)
  assume s: "Sent (PostBooking tok body) \<in> set (emitted eid act w)"
  then obtain a where a: "act = User a"
    using emitted_reply_no_post[of tok body eid _ w] by (cases act) auto
  with s have e: "a = ClickConfirmBooking" "confirm_enabled (ui w)"
    "body = booking_body eid (ui w)"
    by (auto simp: emitted_user split: if_splits)
  show "act = User ClickConfirmBooking" using a e by simp
  show "acceptedTerms (ui w)" using e by (simp add: confirm_enabled_def)
  show "\<not> bookingLoading (ui w)" using e by (simp add: confirm_enabled_def)
  show "currentStep (ui w) = StepConfirmation" using e by (simp add: confirm_enabled_def)
  show "body_event_id body = eid" using e booking_body_fields[of eid "ui w"] by simp
  assume "hasTimeSlots (ui w)"
  then show "\<forall>slot. selectedTimeSlot (ui w) = Some slot \<longrightarrow>
              body_time_slot_start body = Some (slot_start slot)
              \<and> body_time_slot_end body = Some (slot_end slot)"
    using e booking_body_fields[of eid "ui w"] by simp
next
  assume "selectedTimeSlot (ui (booking_step eid act w)) \<noteq> selectedTimeSlot (ui w)"
  then show "\<exists>i. act = User (ClickSlot i) \<and> i < length (timeSlots (ui w))
            \<and> selectedTimeSlot (ui (booking_step eid act w)) = Some (timeSlots (ui w) ! i)
            \<and> 0 < available (timeSlots (ui w) ! i)"
    using step_selects[of eid act w] by blast
next
  assume "currentStep (ui w) = StepTimeSlot
        \<and> currentStep (ui (booking_step eid act w)) = StepConfirmation"
  then show "act = User ClickContinue" "selectedTimeSlot (ui w) \<noteq> None"
    using leaves_time_slot_forward[of w eid act] by auto
qed

lemma slots_world_ui:
  "ui slots_world =
     initial_booking_page\<lparr>event := Some sample_event, timeSlots := sample_slots,
        hasTimeSlots := True, BookingPage.loading := False,
        currentStep := StepConfirmation, acceptedTerms := True,
        BookingPage.userRole := Some ''participant'',
        selectedTimeSlot := Some (sample_slots ! 0),
        eligibility := \<lparr>age = Some True, menstruating = Some False, hysterectomy = Some False,
                        hpv_test = Some False\<rparr>\<rparr>"
  by (simp add: slots_world_def slots_run_def booking_run_def booking_mount_def
        fetchEventAndTimeSlots_def checkIfBooked_def read_token_eq sample_storage_def
        participant_token_def Let_def initial_booking_page_def card_rendered_def
        event_has_free_slots_def sample_event_def set_answer_def sample_slots_def
        canProceedFromEligibility_def isFull_def)

lemma slots_world_storage: "items (storage slots_world) ''access_token'' = Some ''h.p.s''"
  by (simp add: slots_world_def slots_run_def booking_run_def booking_mount_def
        fetchEventAndTimeSlots_def checkIfBooked_def read_token_eq sample_storage_def
        participant_token_def Let_def)

theorem booking_requests_well_formed_witness:
  "Sent (PostBooking (Some ''h.p.s'')
           \<lparr>body_event_id = ''e1'', body_time_slot_start = Some ''09:00'',
            body_time_slot_end = Some ''09:30''\<rparr>)
     \<in> set (emitted ''e1'' (User ClickConfirmBooking) slots_world)
   \<and> acceptedTerms (ui slots_world) \<and> hasTimeSlots (ui slots_world)
   \<and> selectedTimeSlot (ui slots_world) = Some (sample_slots ! 0)
   \<and> 0 < available (sample_slots ! 0)"
proof -
  have sent: "Sent (PostBooking (Some ''h.p.s'')
           \<lparr>body_event_id = ''e1'', body_time_slot_start = Some ''09:00'',
            body_time_slot_end = Some ''09:30''\<rparr>)
     \<in> set (emitted ''e1'' (User ClickConfirmBooking) slots_world)"
    by (simp add: emitted_user slots_world_storage slots_world_ui confirm_enabled_def
          card_rendered_def initial_booking_page_def booking_body_def sample_slots_def)
  show ?thesis
    using sent booking_requests_well_formed[of "Some ''h.p.s''"
        "\<lparr>body_event_id = ''e1'', body_time_slot_start = Some ''09:00'',
            body_time_slot_end = Some ''09:30''\<rparr>" "''e1''" "User ClickConfirmBooking" slots_world]
    by (simp add: slots_world_ui sample_slots_def initial_booking_page_def)
qed

subsection \<open>The result page\<close>

lemma handleRequestOTP_fields:
  "result (ui (handleRequestOTP rid w)) = result (ui w)"
  "otp (ui (handleRequestOTP rid w)) = otp (ui w)"
  "trace (handleRequestOTP rid w)
     = trace w @ [Sent (PostRequestOtp rid (items (storage w) ''access_token''))]"
  by (simp_all add: handleRequestOTP_def read_token_eq Let_def)

lemma handleVerifyOTP_fields:
  "result (ui (handleVerifyOTP rid w)) = result (ui w)"
  "otp (ui (handleVerifyOTP rid w)) = otp (ui w)"
  "trace (handleVerifyOTP rid w)
     = trace w @ [Sent (PostViewResult rid (items (storage w) ''access_token'') (otp (ui w)))]"
  by (simp_all add: handleVerifyOTP_def read_token_eq Let_def)

lemma handleRequestOTP_resume_fields:
  "result (handleRequestOTP_resume r s) = result s"
  "otp (handleRequestOTP_resume r s) = otp s"
  by (cases r; simp add: handleRequestOTP_resume_def)+

lemma handleVerifyOTP_resume_fields:
  "otp (handleVerifyOTP_resume r s) = otp s"
  "result (handleVerifyOTP_resume r s) = (case r of Ok data \<Rightarrow> Some data | _ \<Rightarrow> result s)"
  by (cases r; simp add: handleVerifyOTP_resume_def)+

lemma result_step_unverified:
  "\<not> verified a \<Longrightarrow> result (ui (result_step rid a w)) = result (ui w)"
proof (cases a)
  case (RUser u)
  then show ?thesis
    by (cases u) (simp_all add: handleRequestOTP_fields handleVerifyOTP_fields)
next
  case (RReply r)
  assume "\<not> verified a"
  with RReply show ?thesis
    by (cases r)
       (auto simp: verified_def handleRequestOTP_resume_fields handleVerifyOTP_resume_fields
             split: option.splits Response.splits)
qed

lemma unverified_run_keeps_result:
  "\<forall>a \<in> set acts. \<not> verified a \<Longrightarrow>
   result (ui (foldl (\<lambda>w a. result_step rid a w) w acts)) = result (ui w)"
  by (induction acts arbitrary: w) (simp_all add: result_step_unverified)

lemma result_received_step: "result_received w \<Longrightarrow> result_received (result_step rid a w)"
proof (cases a)
  case (RUser u)
  assume "result_received w"
  with RUser show ?thesis
    by (cases u)
       (auto simp: result_received_def handleRequestOTP_fields handleVerifyOTP_fields)
next
  case (RReply r)
  assume "result_received w"
  with RReply show ?thesis
    by (cases r)
       (auto simp: result_received_def handleRequestOTP_resume_fields
             handleVerifyOTP_resume_fields
             split: option.splits Response.splits dest: find_SomeD)
qed

lemma result_received_run: "result_received (result_run rid st acts)"
  unfolding result_run_def
  by (rule foldl_invariant[where I = result_received])
     (simp_all add: result_received_step, simp add: result_received_def initial_result_page_def)

text \<open>
  Claim C3. On the result page, in every run in which no verification reply is successful,
  the \<open>result\<close> state stays null and the page shows the send-code card or the code form,
  neither of which carries result data. The result card, with \<open>result_category\<close>,
  \<open>result_notes\<close> and \<open>result_file_url\<close>, is shown only after a successful reply to a
  verification request of the page has been received.
\<close>
theorem otp_gates_result:
  "((\<forall>a \<in> set acts. \<not> verified a) \<longrightarrow>
        result (ui (result_run rid st acts)) = None
        \<and> result_view (ui (result_run rid st acts)) \<in> {SendCodeCard, EnterCodeForm})
   \<and> (result_view (ui (result_run rid st acts)) = ResultCard d \<longrightarrow>
        (\<exists>a \<in> set acts. verified a)
        \<and> (\<exists>q. is_view_request q \<and> Received q \<in> set (trace (result_run rid st acts))))"
proof -
  have none: "(\<forall>a \<in> set acts. \<not> verified a) \<longrightarrow> result (ui (result_run rid st acts)) = None"
    using unverified_run_keeps_result[of acts rid "fresh_world initial_result_page st"]
    by (simp add: result_run_def initial_result_page_def)
  have card: "result_view (ui (result_run rid st acts)) = ResultCard d
                \<longrightarrow> result (ui (result_run rid st acts)) \<noteq> None"
    by (auto simp: result_view_def split: if_splits option.splits)
  have form: "result (ui (result_run rid st acts)) = None
                \<longrightarrow> result_view (ui (result_run rid st acts)) \<in> {SendCodeCard, EnterCodeForm}"
    by (simp add: result_view_def)
  have recv: "result (ui (result_run rid st acts)) \<noteq> None
                \<longrightarrow> (\<exists>q. is_view_request q \<and> Received q \<in> set (trace (result_run rid st acts)))"
    using result_received_run[of rid st acts] by (simp add: result_received_def)
  from none card form recv show ?thesis by blast
qed

lemmas result_run_eval =
  result_run_def initial_result_page_def handleRequestOTP_def handleVerifyOTP_def
  read_token_eq Let_def otp_form_shown_def handleRequestOTP_resume_def
  handleVerifyOTP_resume_def is_otp_request_def is_view_request_def sample_storage_def
  strip_non_digits_def is_digit_def maxLength_def

theorem otp_gates_result_witness:
  "\<not> list_ex verified wrong_code_run
   \<and> result_view (ui (result_run ''r1'' sample_storage wrong_code_run)) = EnterCodeForm
   \<and> result_view (ui (result_run ''r1'' sample_storage right_code_run)) = ResultCard sample_result
   \<and> list_ex verified right_code_run"
proof -
  have h: "\<forall>a \<in> set wrong_code_run. \<not> verified a"
    by (simp add: wrong_code_run_def verified_def)
  have v1: "result_view (ui (result_run ''r1'' sample_storage wrong_code_run)) = EnterCodeForm"
    by (simp add: wrong_code_run_def result_run_eval result_view_def)
  have v2: "result_view (ui (result_run ''r1'' sample_storage right_code_run))
              = ResultCard sample_result"
    by (simp add: right_code_run_def result_run_eval result_view_def)
  show ?thesis
    using h v1 v2 otp_gates_result[of wrong_code_run "''r1''" sample_storage sample_result]
      otp_gates_result[of right_code_run "''r1''" sample_storage sample_result]
    by (simp add: list_ex_iff)
qed

subsection \<open>The one-time code\<close>

lemma strip_keeps_digits_only: "list_all is_digit (strip_non_digits v)"
  by (simp add: strip_non_digits_def list_all_iff)

lemma typed_code_capped: "length (strip_non_digits (take maxLength v)) \<le> 6"
proof -
  have "length (filter is_digit (take 6 v)) \<le> length (take 6 v)"
    by (rule length_filter_le)
  then show ?thesis by (simp add: strip_non_digits_def maxLength_def)
qed

lemma otp_codes_sent_append [simp]:
  "otp_codes_sent (xs @ ys) = otp_codes_sent xs @ otp_codes_sent ys"
  by (simp add: otp_codes_sent_def)

lemma otp_codes_sent_single [simp]:
  "otp_codes_sent [Sent (PostViewResult rid tok code)] = [code]"
  "otp_codes_sent [Sent (PostRequestOtp rid tok)] = []"
  "otp_codes_sent [Received q] = []"
  "otp_codes_sent [] = []"
  by (simp_all add: otp_codes_sent_def)

lemma codes_invariant_step: "codes_invariant w \<Longrightarrow> codes_invariant (result_step rid a w)"
proof (cases a)
  case (RUser u)
  assume "codes_invariant w"
  with RUser show ?thesis
    by (cases u)
       (auto simp: codes_invariant_def handleRequestOTP_fields handleVerifyOTP_fields
             six_digits_def strip_keeps_digits_only)
next
  case (RReply r)
  assume "codes_invariant w"
  with RReply show ?thesis
    by (cases r)
       (auto simp: codes_invariant_def handleRequestOTP_resume_fields
             handleVerifyOTP_resume_fields split: option.splits)
qed

lemma codes_invariant_run: "codes_invariant (result_run rid st acts)"
  unfolding result_run_def
  by (rule foldl_invariant[where I = codes_invariant])
     (simp_all add: codes_invariant_step, simp add: codes_invariant_def initial_result_page_def)

text \<open>
  Claim C9. Every verification request the result page sends carries an \<open>otp_code\<close> of
  exactly six decimal digits. The input handler removes every character that is not a
  digit and keeps the digits, the stored code never has more than six characters, and a
  submit with a stored code whose length is not six sends nothing.
\<close>
theorem otp_code_six_digits:
  "(\<forall>code \<in> set (otp_codes_sent (trace (result_run rid st acts))).
       length code = 6 \<and> (\<forall>c \<in> set code. c \<in> set ''0123456789''))
   \<and> set (strip_non_digits v) = {c \<in> set v. c \<in> set ''0123456789''}
   \<and> length (otp (ui (result_step rid (RUser (TypeOtp v)) w))) \<le> max 6 (length (otp (ui w)))
   \<and> length (otp (ui (result_run rid st acts))) \<le> 6
   \<and> (length (otp (ui w)) \<noteq> 6 \<longrightarrow> result_step rid (RUser SubmitOtp) w = w)"
proof -
  have sent: "\<forall>code \<in> set (otp_codes_sent (trace (result_run rid st acts))).
       length code = 6 \<and> (\<forall>c \<in> set code. c \<in> set ''0123456789'')"
    using codes_invariant_run[of rid st acts]
    by (simp add: codes_invariant_def list_all_iff six_digits_def is_digit_def)
  have strip: "set (strip_non_digits v) = {c \<in> set v. c \<in> set ''0123456789''}"
    by (auto simp: strip_non_digits_def is_digit_def)
  have typed: "length (otp (ui (result_step rid (RUser (TypeOtp v)) w)))
                 \<le> max 6 (length (otp (ui w)))"
    using typed_code_capped[of v] by auto
  have cap: "length (otp (ui w')) \<le> 6 \<Longrightarrow> length (otp (ui (result_step rid a w'))) \<le> 6"
    for a w'
  proof (cases a)
    case (RUser u)
    assume "length (otp (ui w')) \<le> 6"
    with RUser show ?thesis using typed_code_capped
      by (cases u) (auto simp: handleRequestOTP_fields handleVerifyOTP_fields)
  next
    case (RReply r)
    assume "length (otp (ui w')) \<le> 6"
    with RReply show ?thesis
      by (cases r)
         (auto simp: handleRequestOTP_resume_fields handleVerifyOTP_resume_fields
               split: option.splits)
  qed
  have run: "length (otp (ui (result_run rid st acts))) \<le> 6"
    unfolding result_run_def
    by (rule foldl_invariant[where I = "\<lambda>w. length (otp (ui w)) \<le> 6"])
       (simp_all add: cap, simp add: initial_result_page_def)
  have submit: "length (otp (ui w)) \<noteq> 6 \<longrightarrow> result_step rid (RUser SubmitOtp) w = w"
    by simp
  from sent strip typed run submit show ?thesis by blast
qed

theorem otp_code_six_digits_witness:
  "otp_codes_sent (trace (result_run ''r1'' sample_storage wrong_code_run)) = [''123456'']
   \<and> length ''123456'' = 6 \<and> list_all is_digit ''123456''"
proof -
  have codes: "otp_codes_sent (trace (result_run ''r1'' sample_storage wrong_code_run))
                 = [''123456'']"
    by (simp add: wrong_code_run_def result_run_eval otp_codes_sent_def)
  show ?thesis
    using codes otp_code_six_digits[of "''r1''" sample_storage wrong_code_run "''12a345''"
        "result_run ''r1'' sample_storage wrong_code_run"]
    by (simp add: list_all_iff is_digit_def)
qed

subsection \<open>Requests at mount\<close>

lemma dashboard_invariant_mount:
  "dashboard_invariant (items st ''access_token'')
     (admin_mount (fresh_world initial_admin_dashboard st))"
  by (simp add: dashboard_invariant_def admin_mount_def read_token_eq Let_def)

lemma request_kind_simps [simp]:
  "is_stats_request (GetAdminStats t)" "\<not> is_stats_request (GetAdminActivity t)"
  "\<not> is_stats_request (GetAdminTrends t)"
  "is_activity_request (GetAdminActivity t)" "\<not> is_activity_request (GetAdminStats t)"
  "\<not> is_activity_request (GetAdminTrends t)"
  "is_trends_request (GetAdminTrends t)" "\<not> is_trends_request (GetAdminStats t)"
  "\<not> is_trends_request (GetAdminActivity t)"
  by (simp_all add: is_stats_request_def is_activity_request_def is_trends_request_def)

lemma dashboard_invariant_step:
  assumes "dashboard_invariant token w"
  shows "dashboard_invariant token (admin_deliver r w)"
proof -
  from assms consider
      "in_flight w = [GetAdminStats token]" "trace w = [Sent (GetAdminStats token)]"
    | "in_flight w = [GetAdminActivity token]"
      "trace w = [Sent (GetAdminStats token), Received (GetAdminStats token),
                  Sent (GetAdminActivity token)]"
    | "in_flight w = [GetAdminTrends token]"
      "trace w = [Sent (GetAdminStats token), Received (GetAdminStats token),
                  Sent (GetAdminActivity token), Received (GetAdminActivity token),
                  Sent (GetAdminTrends token)]"
    | "in_flight w = []"
    by (auto simp: dashboard_invariant_def Let_def)
  then show ?thesis
  proof cases
    case 1
    then show ?thesis
      by (cases r)
         (auto simp: dashboard_invariant_def Let_def split: Response.splits)
  next
    case 2
    then show ?thesis
      by (cases r)
         (auto simp: dashboard_invariant_def Let_def split: Response.splits)
  next
    case 3
    then show ?thesis
      by (cases r)
         (auto simp: dashboard_invariant_def Let_def split: Response.splits)
  next
    case 4
    with assms show ?thesis by (cases r) simp_all
  qed
qed

lemma dashboard_invariant_run:
  "dashboard_invariant (items st ''access_token'') (admin_run st rs)"
  unfolding admin_run_def
  by (rule foldl_invariant[where I = "dashboard_invariant (items st ''access_token'')"])
     (simp_all add: dashboard_invariant_mount dashboard_invariant_step)

text \<open>
  Claim C7. On mount of the event-booking page the history of the event-details and
  time-slots requests is always an initial part of: details sent, details received,
  time slots sent, time slots received; so the time-slots request is sent only after the
  details response, and at most one of the two is in flight; the request that checks for
  an existing booking, started by the same effect, is not one of the two. On mount of the admin
  dashboard the history of the page's requests is always an initial part of: stats sent,
  stats received, recent activity sent, recent activity received, booking trends sent,
  booking trends received; and at most one request is in flight.
\<close>
theorem mount_requests_sequential:
  "prefix (filter (about load_request) (trace (booking_run eid dec st acts)))
      (one_at_a_time [GetEvent eid, GetTimeSlots eid])
   \<and> length (filter load_request (in_flight (booking_run eid dec st acts))) \<le> 1
   \<and> prefix (trace (admin_run st rs))
        (one_at_a_time [GetAdminStats (items st ''access_token''),
                        GetAdminActivity (items st ''access_token''),
                        GetAdminTrends (items st ''access_token'')])
   \<and> length (in_flight (admin_run st rs)) \<le> 1"
proof -
  have b: "prefix (filter (about load_request) (trace (booking_run eid dec st acts)))
      (one_at_a_time [GetEvent eid, GetTimeSlots eid])
   \<and> length (filter load_request (in_flight (booking_run eid dec st acts))) \<le> 1"
    using load_invariant_run[of eid dec st acts]
    by (auto simp: load_invariant_def Let_def)
  have a: "prefix (trace (admin_run st rs))
        (one_at_a_time [GetAdminStats (items st ''access_token''),
                        GetAdminActivity (items st ''access_token''),
                        GetAdminTrends (items st ''access_token'')])
   \<and> length (in_flight (admin_run st rs)) \<le> 1"
    using dashboard_invariant_run[of st rs]
    by (auto simp: dashboard_invariant_def Let_def)
  from a b show ?thesis by blast
qed

theorem mount_requests_sequential_witness:
  "filter (about load_request) (trace slots_world)
     = [Sent (GetEvent ''e1''), Received (GetEvent ''e1''),
        Sent (GetTimeSlots ''e1''), Received (GetTimeSlots ''e1'')]
   \<and> trace (admin_run sample_storage dashboard_replies)
       = [Sent (GetAdminStats (Some ''h.p.s'')), Received (GetAdminStats (Some ''h.p.s'')),
          Sent (GetAdminActivity (Some ''h.p.s'')), Received (GetAdminActivity (Some ''h.p.s'')),
          Sent (GetAdminTrends (Some ''h.p.s''))]
   \<and> in_flight (admin_run sample_storage dashboard_replies) = [GetAdminTrends (Some ''h.p.s'')]
   \<and> prefix (trace (admin_run sample_storage dashboard_replies))
        (one_at_a_time [GetAdminStats (Some ''h.p.s''), GetAdminActivity (Some ''h.p.s''),
                        GetAdminTrends (Some ''h.p.s'')])"
proof -
  have t: "filter (about load_request) (trace slots_world)
     = [Sent (GetEvent ''e1''), Received (GetEvent ''e1''),
        Sent (GetTimeSlots ''e1''), Received (GetTimeSlots ''e1'')]"
    by (simp add: slots_world_def slots_run_def booking_run_def booking_mount_def
        fetchEventAndTimeSlots_def checkIfBooked_def read_token_eq sample_storage_def
        participant_token_def Let_def)
  have d: "trace (admin_run sample_storage dashboard_replies)
       = [Sent (GetAdminStats (Some ''h.p.s'')), Received (GetAdminStats (Some ''h.p.s'')),
          Sent (GetAdminActivity (Some ''h.p.s'')), Received (GetAdminActivity (Some ''h.p.s'')),
          Sent (GetAdminTrends (Some ''h.p.s''))]
     \<and> in_flight (admin_run sample_storage dashboard_replies) = [GetAdminTrends (Some ''h.p.s'')]"
    by (simp add: admin_run_def dashboard_replies_def admin_mount_def read_token_eq
          sample_storage_def Let_def)
  show ?thesis
    using t d mount_requests_sequential[of "''e1''" participant_token sample_storage slots_run
        dashboard_replies]
    by (simp add: sample_storage_def)
qed

subsection \<open>The events list\<close>

lemma str_includes_sublist: "str_includes s t \<longleftrightarrow> sublist t s"
  by (induction s) (simp_all add: sublist_Cons_right)

lemma letterwise_contains:
  "sublist (map f search) (map f addr) \<longleftrightarrow> contains_ignoring_case (map f) addr search"
proof
  assume "sublist (map f search) (map f addr)"
  then obtain ps ss where "map f addr = ps @ map f search @ ss"
    by (auto simp: sublist_def)
  then obtain us vs where us: "addr = us @ vs" "ps = map f us" "map f search @ ss = map f vs"
    by (auto simp: map_eq_append_conv)
  from us(3) obtain part rest where "vs = part @ rest" "map f search = map f part"
    by (auto simp: append_eq_map_conv)
  with us(1) show "contains_ignoring_case (map f) addr search"
    by (auto simp: contains_ignoring_case_def)
next
  assume "contains_ignoring_case (map f) addr search"
  then obtain before part after where
    "addr = before @ part @ after" "map f part = map f search"
    by (auto simp: contains_ignoring_case_def)
  then have "map f addr = map f before @ map f search @ map f after"
    by simp
  then show "sublist (map f search) (map f addr)"
    unfolding sublist_def by blast
qed

lemma units_eval:
  "units ''kuala'' = [107, 117, 97, 108, 97]"
  "units ''Klinik Desa, Ipoh''
     = [75, 108, 105, 110, 105, 107, 32, 68, 101, 115, 97, 44, 32, 73, 112, 111, 104]"
  "units ''Dewan Serbaguna, Kuala Lumpur''
     = [68, 101, 119, 97, 110, 32, 83, 101, 114, 98, 97, 103, 117, 110, 97, 44, 32,
        75, 117, 97, 108, 97, 32, 76, 117, 109, 112, 117, 114]"
  by (simp_all add: units_def)

text \<open>
  Claim C4 as stated fails where lower case is not made letter by letter. The event's address
  is a Greek street name in capitals that ends in sigma, the search string is the capital
  sigma, and no date is selected: the address contains the search string as it stands, yet
  the page shows no event, because the sigma at the end of the address is lowered to the
  final sigma and the sigma of the search string to the plain small one.
\<close>
theorem events_search_counterexample:
  "EventsPage.events sigma_search_page = [street_event]
   \<and> selectedDate sigma_search_page = []
   \<and> address street_event = [927, 916, 927] @ searchLocation sigma_search_page
   \<and> sample_lower (address street_event) = [959, 948, 959, 962]
   \<and> sample_lower (searchLocation sigma_search_page) = [963]
   \<and> filteredEvents sample_lower sigma_search_page = []"
  by (simp add: sigma_search_page_def initial_events_page_def street_event_def
        filteredEvents_def sample_lower_def lower_unit_def cased_def Let_def)

lemma contains_ignoring_case_cong:
  assumes parts: "\<forall>part. sublist part addr \<longrightarrow> lower part = map f part"
    and search: "lower search = map f search"
  shows "contains_ignoring_case lower addr search \<longleftrightarrow> contains_ignoring_case (map f) addr search"
proof -
  have "lower part = map f part" if "addr = before @ part @ after" for before part after
    using parts that by (auto simp: sublist_def)
  then show ?thesis
    unfolding contains_ignoring_case_def using search by metis
qed

lemma lower_after_plain: "931 \<notin> set x \<Longrightarrow> lower_after p x = map lower_unit x"
  by (induction x arbitrary: p) auto

lemma sample_lower_plain:
  "931 \<notin> set addr \<Longrightarrow> sublist part addr \<Longrightarrow> sample_lower part = map lower_unit part"
  unfolding sample_lower_def
  by (rule lower_after_plain) (auto dest: set_mono_sublist)

text \<open>
  Claim C4, amended. The events page shows the fetched events, in their order, that pass both
  tests: the address put in lower case by \<open>toLowerCase\<close> contains the search string put in
  lower case by \<open>toLowerCase\<close>, and, when a date is selected, the event's date equals the
  selected date. Where \<open>toLowerCase\<close> works letter by letter on the parts of the addresses
  and on the search string, the first test is that the address contains the search string
  when case is ignored. With an empty search string, which \<open>toLowerCase\<close> leaves empty, and
  no date selected the shown list is the fetched list.
\<close>
theorem events_filtered_locally:
  "filteredEvents toLowerCase s =
     filter (\<lambda>e. sublist (toLowerCase (searchLocation s)) (toLowerCase (address e))
                 \<and> (selectedDate s \<noteq> [] \<longrightarrow> event_date e = selectedDate s))
       (EventsPage.events s)
   \<and> ((\<forall>e \<in> set (EventsPage.events s). \<forall>part. sublist part (address e)
            \<longrightarrow> toLowerCase part = map f part)
        \<and> toLowerCase (searchLocation s) = map f (searchLocation s) \<longrightarrow>
        filteredEvents toLowerCase s =
          filter (\<lambda>e. contains_ignoring_case toLowerCase (address e) (searchLocation s)
                      \<and> (selectedDate s \<noteq> [] \<longrightarrow> event_date e = selectedDate s))
            (EventsPage.events s))
   \<and> (toLowerCase [] = [] \<and> searchLocation s = [] \<and> selectedDate s = []
        \<longrightarrow> filteredEvents toLowerCase s = EventsPage.events s)"
proof -
  have code: "filteredEvents toLowerCase s =
     filter (\<lambda>e. sublist (toLowerCase (searchLocation s)) (toLowerCase (address e))
                 \<and> (selectedDate s \<noteq> [] \<longrightarrow> event_date e = selectedDate s))
       (EventsPage.events s)"
    unfolding filteredEvents_def Let_def
    by (rule filter_cong) (auto simp: str_includes_sublist)
  have letterwise: "(\<forall>e \<in> set (EventsPage.events s). \<forall>part. sublist part (address e)
            \<longrightarrow> toLowerCase part = map f part)
        \<and> toLowerCase (searchLocation s) = map f (searchLocation s) \<longrightarrow>
        filteredEvents toLowerCase s =
          filter (\<lambda>e. contains_ignoring_case toLowerCase (address e) (searchLocation s)
                      \<and> (selectedDate s \<noteq> [] \<longrightarrow> event_date e = selectedDate s))
            (EventsPage.events s)"
  proof
    assume h: "(\<forall>e \<in> set (EventsPage.events s). \<forall>part. sublist part (address e)
            \<longrightarrow> toLowerCase part = map f part)
        \<and> toLowerCase (searchLocation s) = map f (searchLocation s)"
    have "sublist (toLowerCase (searchLocation s)) (toLowerCase (address e))
            \<longleftrightarrow> contains_ignoring_case toLowerCase (address e) (searchLocation s)"
      if e: "e \<in> set (EventsPage.events s)" for e
    proof -
      from h e have parts: "\<forall>part. sublist part (address e) \<longrightarrow> toLowerCase part = map f part"
        by blast
      then have whole: "toLowerCase (address e) = map f (address e)"
        by simp
      from h have search: "toLowerCase (searchLocation s) = map f (searchLocation s)"
        by blast
      show ?thesis
        unfolding whole search letterwise_contains
        using contains_ignoring_case_cong[OF parts search] by simp
    qed
    then show "filteredEvents toLowerCase s =
          filter (\<lambda>e. contains_ignoring_case toLowerCase (address e) (searchLocation s)
                      \<and> (selectedDate s \<noteq> [] \<longrightarrow> event_date e = selectedDate s))
            (EventsPage.events s)"
      unfolding code by (intro filter_cong refl) simp
  qed
  have all: "toLowerCase [] = [] \<and> searchLocation s = [] \<and> selectedDate s = []
        \<longrightarrow> filteredEvents toLowerCase s = EventsPage.events s"
    by (simp add: code)
  from code letterwise all show ?thesis by blast
qed

theorem events_filtered_locally_witness:
  "filteredEvents sample_lower searching_page = [sample_event]
   \<and> contains_ignoring_case sample_lower (address sample_event) (units ''kuala'')
   \<and> \<not> contains_ignoring_case sample_lower (address other_event) (units ''kuala'')
   \<and> sample_lower [] = []
   \<and> filteredEvents sample_lower listing_page = [sample_event, other_event]"
proof -
  have shown: "filteredEvents sample_lower searching_page = [sample_event]"
    by (simp add: filteredEvents_def searching_page_def initial_events_page_def
          sample_event_def other_event_def units_eval sample_lower_def lower_unit_def
          cased_def Let_def)
  have differ: "other_event \<noteq> sample_event" "event_date other_event = ''2026-11-03''"
    "event_date sample_event = ''2026-11-03''"
    by (simp_all add: other_event_def sample_event_def)
  have no_sigma: "931 \<notin> set (address sample_event)" "931 \<notin> set (address other_event)"
    by (simp_all add: sample_event_def other_event_def units_eval)
  have letterwise:
    "(\<forall>e \<in> set (EventsPage.events searching_page). \<forall>part. sublist part (address e)
         \<longrightarrow> sample_lower part = map lower_unit part)
     \<and> sample_lower (searchLocation searching_page) = map lower_unit (searchLocation searching_page)"
  proof -
    have p1: "\<forall>part. sublist part (address sample_event)
                \<longrightarrow> sample_lower part = map lower_unit part"
      using no_sigma(1) by (blast intro: sample_lower_plain)
    have p2: "\<forall>part. sublist part (address other_event)
                \<longrightarrow> sample_lower part = map lower_unit part"
      using no_sigma(2) by (blast intro: sample_lower_plain)
    have q: "sample_lower (units ''kuala'') = map lower_unit (units ''kuala'')"
      by (rule sample_lower_plain[of "units ''kuala''"]) (simp_all add: units_eval)
    from p1 p2 q show ?thesis
      by (simp add: searching_page_def initial_events_page_def)
  qed
  have "filteredEvents sample_lower searching_page =
          filter (\<lambda>e. contains_ignoring_case sample_lower (address e)
                        (searchLocation searching_page)
                      \<and> (selectedDate searching_page \<noteq> []
                           \<longrightarrow> event_date e = selectedDate searching_page))
            (EventsPage.events searching_page)"
    by (rule mp[OF events_filtered_locally[of sample_lower searching_page lower_unit,
                     THEN conjunct2, THEN conjunct1] letterwise])
  with shown have spec:
    "filter (\<lambda>e. contains_ignoring_case sample_lower (address e) (units ''kuala'')
                     \<and> (''2026-11-03'' \<noteq> [] \<longrightarrow> event_date e = ''2026-11-03''))
          [sample_event, other_event] = [sample_event]"
    by (simp add: searching_page_def initial_events_page_def)
  have empty: "sample_lower [] = [] \<and> searchLocation listing_page = []
                 \<and> selectedDate listing_page = []"
    by (simp add: listing_page_def initial_events_page_def sample_lower_def)
  have "filteredEvents sample_lower listing_page = EventsPage.events listing_page"
    by (rule mp[OF events_filtered_locally[of sample_lower listing_page lower_unit,
                     THEN conjunct2, THEN conjunct2] empty])
  then have listed: "filteredEvents sample_lower listing_page = [sample_event, other_event]"
    by (simp add: listing_page_def)
  from spec differ have
    "contains_ignoring_case sample_lower (address sample_event) (units ''kuala'')
     \<and> \<not> contains_ignoring_case sample_lower (address other_event) (units ''kuala'')"
    by (simp split: if_splits)
  with shown empty listed show ?thesis by simp
qed

subsection \<open>The bookings list\<close>

text \<open>
  Claim C5 fails on the tab counts. At noon of 3 November 2026 in a zone eight hours ahead
  of UTC, a confirmed booking for an event dated that day is shown by the 'upcoming' filter,
  which compares with the start of today, while the tab counts, which compare with the
  present moment, give 0 for 'upcoming' and 1 for 'past'.
\<close>
theorem tab_count_differs_from_list:
  "today noon_clock \<le> now noon_clock
   \<and> filter_by noon_clock Upcoming [todays_booking] = [todays_booking]
   \<and> tab_count noon_clock Upcoming [todays_booking] = 0
   \<and> filter_by noon_clock Past [todays_booking] = []
   \<and> tab_count noon_clock Past [todays_booking] = 1"
  by (simp add: noon_clock_def todays_booking_def filter_by_def tab_count_def
        upcomingCount_def pastCount_def eventDate_def sample_event_def)

lemma filter_by_spec:
  "set (filter_by c Upcoming bs)
     = {b \<in> set bs. booking_status b \<noteq> ''cancelled'' \<and> date_ge (eventDate c b) (today c)}"
  "set (filter_by c Past bs)
     = {b \<in> set bs. booking_status b \<noteq> ''cancelled'' \<and> date_lt (eventDate c b) (today c)}"
  "set (filter_by c Cancelled bs) = {b \<in> set bs. booking_status b = ''cancelled''}"
  "filter_by c FilterAll bs = bs"
  by (auto simp: filter_by_def)

lemma tab_count_all_cancelled:
  "tab_count c FilterAll bs = length (filter_by c FilterAll bs)"
  "tab_count c Cancelled bs = length (filter_by c Cancelled bs)"
  by (simp_all add: tab_count_def filter_by_def cancelledCount_def)

subsection \<open>Cancelling a booking\<close>

lemma date_lt_mono: "date_lt t a \<Longrightarrow> a \<le> b \<Longrightarrow> date_lt t b"
  by (cases t) auto

lemma handleCancelBooking_failed:
  "\<forall>m. reply \<noteq> Ok m \<Longrightarrow>
   bookings (ui (handleCancelBooking c bookingId reply w)) = bookings (ui w)
   \<and> filteredBookings (ui (handleCancelBooking c bookingId reply w)) = filteredBookings (ui w)
   \<and> toast_type (MyBookingsPage.toast (ui (handleCancelBooking c bookingId reply w))) = ToastError
   \<and> pendingRefresh (ui (handleCancelBooking c bookingId reply w)) = pendingRefresh (ui w)"
  by (cases reply)
     (simp_all add: handleCancelBooking_def read_token_eq Let_def error_toast_def)

lemma handleCancelBooking_failed_ui:
  "\<forall>m. reply \<noteq> Ok m \<Longrightarrow> bookingId \<notin> cancelingIds (ui w) \<Longrightarrow>
   \<exists>msg. ui (handleCancelBooking c bookingId reply w)
           = (ui w)\<lparr>MyBookingsPage.toast := error_toast msg\<rparr>"
  by (cases reply)
     (auto simp: handleCancelBooking_def read_token_eq Let_def)

lemma handleCancelBooking_done:
  "bookings (ui (handleCancelBooking c bookingId (Ok m) w))
     = mark_cancelled c bookingId (bookings (ui w))"
  by (simp add: handleCancelBooking_def read_token_eq Let_def filterBookings_def)

lemma mark_cancelled_nth:
  "i < length bs \<Longrightarrow>
   mark_cancelled c bookingId bs ! i =
     (if bk_id (bs ! i) = bookingId
      then (bs ! i)\<lparr>booking_status := ''cancelled'', cancelled_at := Some (nowISO c)\<rparr>
      else bs ! i)"
  by (simp add: mark_cancelled_def)

lemma cancel_click_guard:
  "my_bookings_step c (ClickCancel i reply) w \<noteq> w \<Longrightarrow>
   i < length (filteredBookings (ui w)) \<and> cancel_rendered c (filteredBookings (ui w) ! i)
   \<and> my_bookings_step c (ClickCancel i reply) w
       = handleCancelBooking c (bk_id (filteredBookings (ui w) ! i)) reply w"
  by (auto split: if_splits)

text \<open>
  Claim C10. The Cancel button is rendered only for a booking that is not cancelled and
  whose event is not past, neither by the present moment nor, on any clock whose start of
  today is not after the present moment, by the 'past' filter; a click on Cancel reaches
  \<open>handleCancelBooking\<close> only where the button is rendered. When the cancel request fails
  the bookings list and the shown list are unchanged and an error toast is set; after a
  click on a rendered, enabled button nothing but the toast differs from before. When it
  succeeds the list keeps its length and order, every booking with the given id gets
  \<open>booking_status\<close> 'cancelled' and \<open>cancelled_at\<close> set, and every other booking is unchanged.
\<close>
theorem cancel_is_atomic:
  "(cancel_rendered c b \<longrightarrow>
      booking_status b \<noteq> ''cancelled'' \<and> \<not> isPast c b
      \<and> (today c \<le> now c \<longrightarrow> b \<notin> set (filter_by c Past bs)))
   \<and> (my_bookings_step c (ClickCancel i reply) w \<noteq> w \<longrightarrow>
        i < length (filteredBookings (ui w)) \<and> cancel_rendered c (filteredBookings (ui w) ! i)
        \<and> my_bookings_step c (ClickCancel i reply) w
             = handleCancelBooking c (bk_id (filteredBookings (ui w) ! i)) reply w)
   \<and> ((\<forall>m. reply \<noteq> Ok m) \<longrightarrow>
        bookings (ui (handleCancelBooking c bookingId reply w)) = bookings (ui w)
        \<and> filteredBookings (ui (handleCancelBooking c bookingId reply w))
            = filteredBookings (ui w)
        \<and> toast_type (MyBookingsPage.toast (ui (handleCancelBooking c bookingId reply w)))
            = ToastError)
   \<and> ((\<forall>m. reply \<noteq> Ok m) \<and> bookingId \<notin> cancelingIds (ui w) \<longrightarrow>
        (\<exists>msg. ui (handleCancelBooking c bookingId reply w)
                = (ui w)\<lparr>MyBookingsPage.toast := error_toast msg\<rparr>))
   \<and> length (bookings (ui (handleCancelBooking c bookingId (Ok m) w)))
        = length (bookings (ui w))
   \<and> (\<forall>j < length (bookings (ui w)).
        bookings (ui (handleCancelBooking c bookingId (Ok m) w)) ! j =
          (if bk_id (bookings (ui w) ! j) = bookingId
           then (bookings (ui w) ! j)\<lparr>booking_status := ''cancelled'',
                                       cancelled_at := Some (nowISO c)\<rparr>
           else bookings (ui w) ! j))"
proof -
  have rendered: "cancel_rendered c b \<longrightarrow>
      booking_status b \<noteq> ''cancelled'' \<and> \<not> isPast c b
      \<and> (today c \<le> now c \<longrightarrow> b \<notin> set (filter_by c Past bs))"
    using date_lt_mono[of "eventDate c b" "today c" "now c"]
    by (auto simp: cancel_rendered_def isPast_def filter_by_spec)
  have click: "my_bookings_step c (ClickCancel i reply) w \<noteq> w \<longrightarrow>
        i < length (filteredBookings (ui w)) \<and> cancel_rendered c (filteredBookings (ui w) ! i)
        \<and> my_bookings_step c (ClickCancel i reply) w
             = handleCancelBooking c (bk_id (filteredBookings (ui w) ! i)) reply w"
    using cancel_click_guard[of c i reply w] by blast
  have failed: "(\<forall>m. reply \<noteq> Ok m) \<longrightarrow>
        bookings (ui (handleCancelBooking c bookingId reply w)) = bookings (ui w)
        \<and> filteredBookings (ui (handleCancelBooking c bookingId reply w))
            = filteredBookings (ui w)
        \<and> toast_type (MyBookingsPage.toast (ui (handleCancelBooking c bookingId reply w)))
            = ToastError"
    using handleCancelBooking_failed[of reply c bookingId w] by blast
  have only_toast: "(\<forall>m. reply \<noteq> Ok m) \<and> bookingId \<notin> cancelingIds (ui w) \<longrightarrow>
        (\<exists>msg. ui (handleCancelBooking c bookingId reply w)
                = (ui w)\<lparr>MyBookingsPage.toast := error_toast msg\<rparr>)"
    using handleCancelBooking_failed_ui[of reply bookingId w c] by blast
  have len: "length (bookings (ui (handleCancelBooking c bookingId (Ok m) w)))
        = length (bookings (ui w))"
    by (simp add: handleCancelBooking_done mark_cancelled_def)
  have each: "\<forall>j < length (bookings (ui w)).
        bookings (ui (handleCancelBooking c bookingId (Ok m) w)) ! j =
          (if bk_id (bookings (ui w) ! j) = bookingId
           then (bookings (ui w) ! j)\<lparr>booking_status := ''cancelled'',
                                       cancelled_at := Some (nowISO c)\<rparr>
           else bookings (ui w) ! j)"
    by (simp add: handleCancelBooking_done mark_cancelled_nth)
  from rendered click failed only_toast len each show ?thesis by blast
qed

lemma bookings_world_lists:
  "bookings (ui bookings_world) = [todays_booking, later_booking]
   \<and> filteredBookings (ui bookings_world) = [todays_booking, later_booking]
   \<and> \<not> MyBookingsPage.loading (ui bookings_world)
   \<and> cancelingIds (ui bookings_world) = {}"
  by (simp add: bookings_world_def fetchBookings_def read_token_eq sample_storage_def
        initial_my_bookings_def filterBookings_def filter_by_def)

theorem cancel_is_atomic_witness:
  "cancel_rendered morning_clock later_booking
   \<and> today morning_clock \<le> now morning_clock
   \<and> bookings (ui (my_bookings_step morning_clock (ClickCancel 1 (Ok None)) bookings_world))
       = [todays_booking,
          later_booking\<lparr>booking_status := ''cancelled'',
                        cancelled_at := Some ''2026-11-02T23:00:00.000Z''\<rparr>]
   \<and> bookings (ui (my_bookings_step morning_clock
                      (ClickCancel 1 (NotOk (Some ''Too late to cancel''))) bookings_world))
       = [todays_booking, later_booking]"
proof -
  have r: "cancel_rendered morning_clock later_booking"
    by (simp add: cancel_rendered_def isPast_def eventDate_def morning_clock_def
          later_booking_def other_event_def)
  have t: "today morning_clock \<le> now morning_clock"
    by (simp add: morning_clock_def)
  have step: "my_bookings_step morning_clock (ClickCancel 1 reply) bookings_world
                = handleCancelBooking morning_clock ''b2'' reply bookings_world" for reply
    using r by (simp add: bookings_world_lists later_booking_def)
  have nf: "\<forall>m. NotOk (Some ''Too late to cancel'') \<noteq> (Ok m :: string option Response)"
    by simp
  show ?thesis
    using r t nf
      cancel_is_atomic[of morning_clock later_booking "[todays_booking, later_booking]" 1
        "NotOk (Some ''Too late to cancel'')" bookings_world "''b2''" None]
    by (simp add: step bookings_world_lists handleCancelBooking_done mark_cancelled_def
          todays_booking_def later_booking_def morning_clock_def)
qed

subsection \<open>Client storage\<close>

lemma only_reads_token_iff:
  "only_reads_token st st' \<longleftrightarrow>
     items st' = items st
     \<and> (\<exists>xs. oplog st' = oplog st @ xs \<and> list_all (\<lambda>op. op = GetItem ''access_token'') xs)"
proof
  assume a: "only_reads_token st st'"
  have "oplog st' = take (length (oplog st)) (oplog st') @ drop (length (oplog st)) (oplog st')"
    by simp
  with a have "oplog st' = oplog st @ drop (length (oplog st)) (oplog st')"
    by (simp only: only_reads_token_def)
  with a show "items st' = items st
     \<and> (\<exists>xs. oplog st' = oplog st @ xs \<and> list_all (\<lambda>op. op = GetItem ''access_token'') xs)"
    unfolding only_reads_token_def by blast
next
  assume "items st' = items st
     \<and> (\<exists>xs. oplog st' = oplog st @ xs \<and> list_all (\<lambda>op. op = GetItem ''access_token'') xs)"
  then obtain xs where "items st' = items st" "oplog st' = oplog st @ xs"
    "list_all (\<lambda>op. op = GetItem ''access_token'') xs"
    by blast
  then show "only_reads_token st st'"
    by (simp add: only_reads_token_def)
qed

lemma only_reads_token_refl [simp]: "only_reads_token st st"
  by (simp add: only_reads_token_def)

lemma only_reads_token_trans:
  assumes "only_reads_token a b" and "only_reads_token b c"
  shows "only_reads_token a c"
proof -
  from assms(1) obtain xs where xs: "items b = items a" "oplog b = oplog a @ xs"
      "list_all (\<lambda>op. op = GetItem ''access_token'') xs"
    unfolding only_reads_token_iff by blast
  from assms(2) obtain ys where ys: "items c = items b" "oplog c = oplog b @ ys"
      "list_all (\<lambda>op. op = GetItem ''access_token'') ys"
    unfolding only_reads_token_iff by blast
  have "oplog c = oplog a @ (xs @ ys)" using xs(2) ys(2) by simp
  moreover have "list_all (\<lambda>op. op = GetItem ''access_token'') (xs @ ys)"
    using xs(3) ys(3) by simp
  moreover have "items c = items a" using xs(1) ys(1) by simp
  ultimately show ?thesis unfolding only_reads_token_iff by blast
qed

lemma only_reads_token_read:
  "only_reads_token st (st\<lparr>oplog := oplog st @ [GetItem ''access_token'']\<rparr>)"
  by (simp add: only_reads_token_def)

lemma only_reads_token_read2:
  "only_reads_token st
     (st\<lparr>oplog := oplog st @ [GetItem ''access_token'', GetItem ''access_token'']\<rparr>)"
  by (simp add: only_reads_token_def)

lemmas storage_simps =
  read_token_eq Let_def only_reads_token_read only_reads_token_read2

lemma foldl_storage:
  assumes "\<And>a w. only_reads_token (storage w) (storage (f w a))"
  shows "only_reads_token (storage w) (storage (foldl f w as))"
proof (induction as arbitrary: w)
  case Nil
  show ?case by simp
next
  case (Cons a as)
  have "only_reads_token (storage w) (storage (f w a))" by (rule assms)
  moreover have "only_reads_token (storage (f w a)) (storage (foldl f (f w a) as))"
    by (rule Cons)
  ultimately show ?case unfolding foldl_Cons by (rule only_reads_token_trans)
qed

lemma booking_mount_storage: "only_reads_token (storage w) (storage (booking_mount eid dec w))"
  by (auto simp: booking_mount_def fetchEventAndTimeSlots_def checkIfBooked_def storage_simps
        split: option.splits)

lemma booking_step_storage: "only_reads_token (storage w) (storage (booking_step eid a w))"
proof (cases a)
  case (User u)
  then show ?thesis by (simp add: handleBooking_def storage_simps)
next
  case (Reply r)
  then show ?thesis
    by (cases r) (auto simp: Let_def split: option.splits Response.splits)
qed

lemma booking_run_storage: "only_reads_token st (storage (booking_run eid dec st acts))"
proof -
  have "only_reads_token st (storage (booking_mount eid dec (fresh_world initial_booking_page st)))"
    using booking_mount_storage[of "fresh_world initial_booking_page st" eid dec] by simp
  moreover have "only_reads_token
      (storage (booking_mount eid dec (fresh_world initial_booking_page st)))
      (storage (booking_run eid dec st acts))"
    unfolding booking_run_def by (rule foldl_storage) (rule booking_step_storage)
  ultimately show ?thesis by (rule only_reads_token_trans)
qed

lemma result_step_storage: "only_reads_token (storage w) (storage (result_step rid a w))"
proof (cases a)
  case (RUser u)
  then show ?thesis
    by (cases u) (simp_all add: handleRequestOTP_def handleVerifyOTP_def storage_simps)
next
  case (RReply r)
  then show ?thesis by (cases r) (auto split: option.splits)
qed

lemma result_run_storage: "only_reads_token st (storage (result_run rid st acts))"
  using foldl_storage[of "\<lambda>w a. result_step rid a w" "fresh_world initial_result_page st" acts]
  by (simp add: result_run_def result_step_storage)

lemma admin_mount_storage: "only_reads_token (storage w) (storage (admin_mount w))"
  by (simp add: admin_mount_def storage_simps)

lemma admin_deliver_keeps_storage: "storage (admin_deliver r w) = storage w"
  by (cases r)
     (simp_all add: Let_def split: option.split Request.split Response.split)

lemma admin_deliver_storage: "only_reads_token (storage w) (storage (admin_deliver r w))"
  by (simp add: admin_deliver_keeps_storage)

lemma fetchBookings_storage: "only_reads_token (storage w) (storage (fetchBookings c r w))"
  by (simp add: fetchBookings_def storage_simps)

lemma my_bookings_step_storage:
  "only_reads_token (storage w) (storage (my_bookings_step c a w))"
proof (cases a)
  case (RefreshFires r)
  then show ?thesis
    using fetchBookings_storage[of "modify (\<lambda>s. s\<lparr>pendingRefresh := pendingRefresh s - 1\<rparr>) w" c r]
    by simp
qed (simp_all add: handleCancelBooking_def storage_simps)

lemma fetchEvents_storage: "only_reads_token (storage w) (storage (fetchEvents role r w))"
  by (simp add: fetchEvents_def storage_simps)

lemma fetchParticipantBookings_storage:
  "storage (fetchParticipantBookings t r w) = storage w"
  by (cases r) (simp_all add: fetchParticipantBookings_def Let_def)

lemma events_mount_storage:
  "only_reads_token (storage w) (storage (events_mount dec br er w))"
  by (auto simp: events_mount_def fetchEvents_def fetchParticipantBookings_storage storage_simps
        split: option.splits)

lemma fetchDashboardData_storage:
  "only_reads_token (storage w) (storage (fetchDashboardData c r1 r2 r3 w))"
  by (cases r1; cases r2; cases r3) (simp_all add: fetchDashboardData_def storage_simps)

lemma fetchResults_storage: "only_reads_token (storage w) (storage (fetchResults lower r w))"
  by (simp add: fetchResults_def storage_simps)

lemma admin_fetchEvents_storage:
  "only_reads_token (storage w) (storage (admin_fetchEvents r w))"
  by (simp add: admin_fetchEvents_def storage_simps)

lemma handleDelete_storage:
  "only_reads_token (storage w) (storage (handleDelete eid confirmed r rr w))"
  by (cases r) (simp_all add: handleDelete_def admin_fetchEvents_def storage_simps)

text \<open>
  Claim C6. No handler of the page components writes to client storage: after the mount
  effect, after every user action and every server reply of the event-booking page and of
  the result page, after \<open>fetchDashboardData\<close> of both dashboards, after \<open>fetchBookings\<close> and
  every action of the bookings page, after the mount effect and \<open>fetchEvents\<close> of the events
  page, after \<open>fetchResults\<close>, and after \<open>fetchEvents\<close> and \<open>handleDelete\<close> of the admin events
  page, the stored items are what they were, so no Event, Booking, Result, DashboardStats,
  Activity, BookingTrend or EligibilityAnswers value is stored; and every storage access made
  is a read of the key \<open>access_token\<close>.
\<close>
theorem storage_only_read:
  "only_reads_token st (storage (booking_run eventId decodeRole st bookingActs))
   \<and> only_reads_token (storage bw) (storage (booking_step eventId bookingAct bw))
   \<and> only_reads_token st (storage (result_run resultId st resultActs))
   \<and> only_reads_token (storage rw) (storage (result_step resultId resultAct rw))
   \<and> only_reads_token st (storage (admin_run st adminReplies))
   \<and> only_reads_token (storage pw)
        (storage (fetchDashboardData c eventsRes bookingsRes resultsRes pw))
   \<and> only_reads_token (storage mw) (storage (fetchBookings c bookingsRes mw))
   \<and> only_reads_token (storage mw) (storage (my_bookings_step c myBookingsAct mw))
   \<and> only_reads_token (storage ew) (storage (events_mount decodeRole bookingsRes eventsRes ew))
   \<and> only_reads_token (storage ew) (storage (fetchEvents role eventsRes ew))
   \<and> only_reads_token (storage sw) (storage (fetchResults toLowerCase resultsRes sw))
   \<and> only_reads_token (storage aw) (storage (admin_fetchEvents eventsRes aw))
   \<and> only_reads_token (storage aw)
        (storage (handleDelete eventId confirmed deleteRes eventsRes aw))"
proof -
  have admin: "only_reads_token st (storage (admin_run st adminReplies))"
  proof -
    have "only_reads_token st (storage (admin_mount (fresh_world initial_admin_dashboard st)))"
      using admin_mount_storage[of "fresh_world initial_admin_dashboard st"] by simp
    moreover have "only_reads_token
        (storage (admin_mount (fresh_world initial_admin_dashboard st)))
        (storage (admin_run st adminReplies))"
      unfolding admin_run_def by (rule foldl_storage) (rule admin_deliver_storage)
    ultimately show ?thesis by (rule only_reads_token_trans)
  qed
  show ?thesis
    by (intro conjI booking_run_storage booking_step_storage result_run_storage
          result_step_storage admin fetchDashboardData_storage fetchBookings_storage
          my_bookings_step_storage events_mount_storage fetchEvents_storage
          fetchResults_storage admin_fetchEvents_storage handleDelete_storage)
qed

theorem storage_only_read_witness:
  "items (storage slots_world) = [''access_token'' \<mapsto> ''h.p.s'']
   \<and> oplog (storage (booking_step ''e1'' (User ClickConfirmBooking) slots_world))
       = [GetItem ''access_token'', GetItem ''access_token'']
   \<and> only_reads_token sample_storage
        (storage (booking_step ''e1'' (User ClickConfirmBooking) slots_world))"
proof -
  have st: "storage slots_world
              = \<lparr>items = [''access_token'' \<mapsto> ''h.p.s''], oplog = [GetItem ''access_token'']\<rparr>"
    by (simp add: slots_world_def slots_run_def booking_run_def booking_mount_def
        fetchEventAndTimeSlots_def checkIfBooked_def read_token_eq sample_storage_def
        participant_token_def Let_def)
  have ops: "oplog (storage (booking_step ''e1'' (User ClickConfirmBooking) slots_world))
       = [GetItem ''access_token'', GetItem ''access_token'']"
    by (simp add: st handleBooking_def read_token_eq Let_def slots_world_ui confirm_enabled_def
          card_rendered_def initial_booking_page_def)
  have "only_reads_token sample_storage (storage slots_world)"
    unfolding slots_world_def
    by (rule storage_only_read[of sample_storage "''e1''" participant_token slots_run,
          THEN conjunct1])
  moreover have "only_reads_token (storage slots_world)
        (storage (booking_step ''e1'' (User ClickConfirmBooking) slots_world))"
    by (rule storage_only_read[of _ "''e1''" _ _ slots_world "User ClickConfirmBooking",
          THEN conjunct2, THEN conjunct1])
  ultimately have "only_reads_token sample_storage
        (storage (booking_step ''e1'' (User ClickConfirmBooking) slots_world))"
    by (rule only_reads_token_trans)
  with st ops show ?thesis by simp
qed

end
